theory Spec2Isabelle
  imports Complex_Main "HOL-Library.Sublist"
begin

section \<open>JavaScript values as the route-documentation script sees them\<close>

text \<open>
  \<^verbatim>\<open>scripts/write-api-docs.js\<close> walks the tree that acorn produces for a route file. The
  tree is made of plain objects, arrays and primitive values, so a value is a finite tree:
  an object is the list of its own enumerable properties in \<^verbatim>\<open>Object.keys\<close> order, an
  array the list of its elements. Object identity, functions, prototype properties and
  the \<^verbatim>\<open>RegExp\<close> object that is the value of a regular-expression literal are not
  represented; the script reads none of them from a node.

  A number is NaN, an infinity or a finite value; the two zeros are one value, as they are
  for \<^verbatim>\<open>===\<close> and for truthiness.
\<close>

datatype jsnum = NaN | PosInfinity | NegInfinity | Finite rat

datatype jsval =
    Undefined
  | Null
  | Bool bool
  | Num jsnum
  | Str string
  | Arr "jsval list"
  | Obj "(string \<times> jsval) list"

text \<open>A property key: a name, or an array index.\<close>

datatype key = Name string | Index nat

subsection \<open>Errors\<close>

text \<open>
  \<^verbatim>\<open>fail\<close> is the only \<^verbatim>\<open>throw\<close> of the script; it throws a \<^verbatim>\<open>TypeError\<close> whose text is
  built from a message, the file path and the line number. The texts are template strings;
  they are kept here as the template with the values of its holes.
\<close>

datatype message =
    Expected_export nat
    \<comment> \<open>\<^verbatim>\<open>Expected 1 export, found ${exported.length}\<close>\<close>
  | Expected_type_found_nothing "string list"
    \<comment> \<open>\<^verbatim>\<open>Expected type [${Array.from(types).join(',')}], found nothing\<close>\<close>
  | Expected_type_found "string list" jsval jsval
    \<comment> \<open>\<^verbatim>\<open>Expected type [...], found "${nodeType}" at column "${column}"\<close>\<close>
  | Expected_return nat
    \<comment> \<open>\<^verbatim>\<open>Expected 1 return statement, found ${returned.length}\<close>\<close>
  | Expected_route_definitions nat
    \<comment> \<open>\<^verbatim>\<open>Expected 1 set of route definitions, found ${routeDefinitions.length}\<close>\<close>
  | Missing_authentication_strategy
    \<comment> \<open>\<^verbatim>\<open>Missing authentication strategy\<close>\<close>

datatype debug_message =
    Error_parsing_at_line jsval jsval message
    \<comment> \<open>\<^verbatim>\<open>Error parsing "${filePath}" at line ${lineNumber}:\n${message}\<close>\<close>
  | Error_parsing jsval message
    \<comment> \<open>\<^verbatim>\<open>Error parsing "${filePath}":\n${message}\<close>\<close>
  | Plain message

text \<open>
  The other ways the script can stop are the engine's own errors: the \<^verbatim>\<open>TypeError\<close>
  thrown when a property of \<^verbatim>\<open>undefined\<close> or \<^verbatim>\<open>null\<close> is read or when something that is no
  function is called, and the \<^verbatim>\<open>RangeError\<close> thrown when a call finds the call stack
  exhausted.
\<close>

datatype error =
    Diagnostic debug_message
  | Native_TypeError
  | Native_RangeError

definition bindE :: "error + 'a \<Rightarrow> ('a \<Rightarrow> error + 'b) \<Rightarrow> error + 'b" where
  "bindE m f = (case m of Inl e \<Rightarrow> Inl e | Inr x \<Rightarrow> f x)"

subsection \<open>Primitive operations of the language\<close>

fun truthy :: "jsval \<Rightarrow> bool" where
  "truthy Undefined = False"
| "truthy Null = False"
| "truthy (Bool b) = b"
| "truthy (Num n) = (n \<noteq> NaN \<and> n \<noteq> Finite 0)"
| "truthy (Str s) = (s \<noteq> [])"
| "truthy (Arr xs) = True"
| "truthy (Obj kvs) = True"

fun typeof :: "jsval \<Rightarrow> string" where
  "typeof Undefined = ''undefined''"
| "typeof Null = ''object''"
| "typeof (Bool b) = ''boolean''"
| "typeof (Num n) = ''number''"
| "typeof (Str s) = ''string''"
| "typeof (Arr xs) = ''object''"
| "typeof (Obj kvs) = ''object''"

fun isArray :: "jsval \<Rightarrow> bool" where
  "isArray (Arr xs) = True"
| "isArray v = False"

text \<open>
  \<^verbatim>\<open>a === b\<close>. An object is strictly equal to itself only; the objects at two places of a
  tree are two objects, and the script never compares an object with itself.
\<close>

fun strict_eq :: "jsval \<Rightarrow> jsval \<Rightarrow> bool" where
  "strict_eq (Num a) b = (a \<noteq> NaN \<and> b = Num a)"
| "strict_eq (Arr xs) b = False"
| "strict_eq (Obj kvs) b = False"
| "strict_eq a b = (a = b)"

text \<open>\<^verbatim>\<open>Object.keys(v)\<close>: a \<^verbatim>\<open>TypeError\<close> on \<^verbatim>\<open>undefined\<close> and \<^verbatim>\<open>null\<close>.\<close>

fun object_keys :: "jsval \<Rightarrow> error + key list" where
  "object_keys Undefined = Inl Native_TypeError"
| "object_keys Null = Inl Native_TypeError"
| "object_keys (Bool b) = Inr []"
| "object_keys (Num n) = Inr []"
| "object_keys (Str s) = Inr (map Index [0..<length s])"
| "object_keys (Arr xs) = Inr (map Index [0..<length xs])"
| "object_keys (Obj kvs) = Inr (map (\<lambda>kv. Name (fst kv)) kvs)"

text \<open>
  \<^verbatim>\<open>v[k]\<close> and \<^verbatim>\<open>v.k\<close>: a \<^verbatim>\<open>TypeError\<close> on \<^verbatim>\<open>undefined\<close> and \<^verbatim>\<open>null\<close>, \<^verbatim>\<open>undefined\<close>
  for a property the value does not have.
\<close>

fun get :: "jsval \<Rightarrow> key \<Rightarrow> error + jsval" where
  "get Undefined k = Inl Native_TypeError"
| "get Null k = Inl Native_TypeError"
| "get (Obj kvs) (Name n) = Inr (case map_of kvs n of Some v \<Rightarrow> v | None \<Rightarrow> Undefined)"
| "get (Arr xs) (Index i) = Inr (if i < length xs then xs ! i else Undefined)"
| "get (Arr xs) (Name n) =
     Inr (if n = ''length'' then Num (Finite (of_nat (length xs))) else Undefined)"
| "get (Str s) (Index i) = Inr (if i < length s then Str [s ! i] else Undefined)"
| "get (Str s) (Name n) =
     Inr (if n = ''length'' then Num (Finite (of_nat (length s))) else Undefined)"
| "get v k = Inr Undefined"

text \<open>\<^verbatim>\<open>xs.every(f)\<close>, \<^verbatim>\<open>xs.some(f)\<close> and \<^verbatim>\<open>xs.reduce(f, init)\<close>, with a callback that may throw.\<close>

fun every :: "('a \<Rightarrow> error + bool) \<Rightarrow> 'a list \<Rightarrow> error + bool" where
  "every f [] = Inr True"
| "every f (x # xs) = bindE (f x) (\<lambda>b. if b then every f xs else Inr False)"

fun some :: "('a \<Rightarrow> error + bool) \<Rightarrow> 'a list \<Rightarrow> error + bool" where
  "some f [] = Inr False"
| "some f (x # xs) = bindE (f x) (\<lambda>b. if b then Inr True else some f xs)"

fun reduce :: "('b \<Rightarrow> 'a \<Rightarrow> error + 'b) \<Rightarrow> 'a list \<Rightarrow> 'b \<Rightarrow> error + 'b" where
  "reduce f [] acc = Inr acc"
| "reduce f (x # xs) acc = bindE (f acc x) (\<lambda>acc'. reduce f xs acc')"

lemma bindE_Inr [simp]: "bindE (Inr x) f = f x"
  by (simp add: bindE_def)

lemma bindE_Inl [simp]: "bindE (Inl e) f = Inl e"
  by (simp add: bindE_def)

lemma bindE_cong [fundef_cong]:
  "m = m' \<Longrightarrow> (\<And>x. m' = Inr x \<Longrightarrow> f x = f' x) \<Longrightarrow> bindE m f = bindE m' f'"
  by (cases m') (simp_all add: bindE_def)

lemma every_cong [fundef_cong]:
  assumes "xs = ys" and "\<And>x. x \<in> set ys \<Longrightarrow> f x = g x"
  shows "every f xs = every g ys"
proof -
  have "every f ys = every g ys"
    using assms(2) by (induction ys) (simp_all cong: if_cong)
  with assms(1) show ?thesis by simp
qed

lemma some_cong [fundef_cong]:
  assumes "xs = ys" and "\<And>x. x \<in> set ys \<Longrightarrow> f x = g x"
  shows "some f xs = some g ys"
proof -
  have "some f ys = some g ys"
    using assms(2) by (induction ys) (simp_all cong: if_cong)
  with assms(1) show ?thesis by simp
qed

lemma reduce_cong [fundef_cong]:
  assumes "xs = ys" and "a = b" and "\<And>acc x. x \<in> set ys \<Longrightarrow> f acc x = g acc x"
  shows "reduce f xs a = reduce g ys b"
proof -
  have "reduce f ys c = reduce g ys c" for c
    using assms(3) by (induction ys arbitrary: c) (simp_all add: bindE_def split: sum.splits)
  with assms(1,2) show ?thesis by simp
qed

section \<open>The tree matcher\<close>

text \<open>
  \<^verbatim>\<open>
  function isObject (node) {
    return node && typeof node === 'object'
  }
  \<close>
  The result is only ever used as a condition.
\<close>

definition isObject :: "jsval \<Rightarrow> bool" where
  "isObject node = (truthy node \<and> typeof node = ''object'')"

lemma isObject_simps [simp]:
  "isObject Undefined = False" "isObject Null = False" "isObject (Bool b) = False"
  "isObject (Num n) = False" "isObject (Str s) = False"
  "isObject (Arr xs) = True" "isObject (Obj kvs) = True"
  by (simp_all add: isObject_def)

lemma size_map_of:
  "map_of kvs n = Some v \<Longrightarrow> size v < Suc (size_list (size_prod (\<lambda>_. 0) size) kvs)"
proof (induction kvs)
  case Nil
  then show ?case by simp
next
  case (Cons kv kvs)
  then show ?case by (cases kv) (auto split: if_splits)
qed

lemma size_get:
  assumes "isObject node" "object_keys node = Inr ks" "k \<in> set ks" "get node k = Inr v"
  shows "size v < size node"
proof (cases node)
  case (Arr xs)
  with assms obtain i where "k = Index i" "i < length xs" "v = xs ! i"
    by auto
  then have "v \<in> set xs" by simp
  then have "size v \<le> size_list size xs"
    by (simp add: size_list_estimation')
  with Arr show ?thesis by simp
next
  case (Obj kvs)
  with assms obtain n where n: "k = Name n" by auto
  show ?thesis
  proof (cases "map_of kvs n")
    case None
    with assms Obj n show ?thesis by simp
  next
    case (Some w)
    with assms Obj n size_map_of [OF Some] show ?thesis by simp
  qed
qed (use assms in simp_all)

text \<open>
  \<^verbatim>\<open>
  function match (node, criteria) {
    if (! isObject(node)) {
      if (node === criteria) {
        return true
      }

      return false
    }

    if (! isObject(criteria)) {
      return false
    }

    return Object.keys(criteria).every(criteriaKey => {
      return Object.keys(node).some(nodeKey => {
        return match(node[nodeKey], criteria[criteriaKey])
      })
    })
  }
  \<close>
\<close>

function match :: "jsval \<Rightarrow> jsval \<Rightarrow> error + bool" where
  "match node criteria =
     (if \<not> isObject node then
        (if strict_eq node criteria then Inr True else Inr False)
      else if \<not> isObject criteria then Inr False
      else
        bindE (object_keys criteria) (\<lambda>criteriaKeys.
          every (\<lambda>criteriaKey.
            bindE (object_keys node) (\<lambda>nodeKeys.
              some (\<lambda>nodeKey.
                bindE (get node nodeKey) (\<lambda>nodeValue.
                bindE (get criteria criteriaKey) (\<lambda>criteriaValue.
                  match nodeValue criteriaValue)))
                nodeKeys))
            criteriaKeys))"
  by pat_completeness auto
termination
  by (relation "measure (\<lambda>(node, criteria). size node)") (auto intro: size_get)

declare match.simps [simp del]

text \<open>
  \<^verbatim>\<open>
  function find (node, criteria, options) {
    options = options || {}

    if (match(node, criteria)) {
      return [ node ]
    }

    if (Array.isArray(node) && options.array) {
      return node.reduce((results, property) => {
        return results.concat(find(property, criteria, options))
      }, [])
    }

    if (isObject(node) && options.recursive) {
      return Object.keys(node).reduce((results, key) => {
        return results.concat(find(node[key], criteria, options))
      }, [])
    }

    return []
  }
  \<close>
  \<^verbatim>\<open>node.reduce\<close> runs over the elements of the array \<^verbatim>\<open>node\<close>.
\<close>

fun elements_of :: "jsval \<Rightarrow> jsval list" where
  "elements_of (Arr xs) = xs"
| "elements_of v = []"

function find_js :: "jsval \<Rightarrow> jsval \<Rightarrow> jsval \<Rightarrow> error + jsval list" where
  "find_js node criteria options0 =
     (let options = (if truthy options0 then options0 else Obj []) in
      bindE (match node criteria) (\<lambda>matched.
        if matched then Inr [node]
        else
          bindE (if isArray node then bindE (get options (Name ''array'')) (\<lambda>a. Inr (truthy a))
                 else Inr False) (\<lambda>intoArray.
            if intoArray then
              reduce (\<lambda>results property.
                  bindE (find_js property criteria options) (\<lambda>found. Inr (results @ found)))
                (elements_of node) []
            else
              bindE (if isObject node
                     then bindE (get options (Name ''recursive'')) (\<lambda>r. Inr (truthy r))
                     else Inr False) (\<lambda>intoObject.
                if intoObject then
                  bindE (object_keys node) (\<lambda>keys.
                    reduce (\<lambda>results key.
                        bindE (get node key) (\<lambda>child.
                        bindE (find_js child criteria options) (\<lambda>found.
                          Inr (results @ found))))
                      keys [])
                else Inr []))))"
  by pat_completeness auto
termination
proof (relation "measure (\<lambda>(node, criteria, options). size node)", goal_cases)
  case 1
  show ?case by simp
next
  case (2 node criteria options0 options matched intoArray acc property)
  then obtain xs where "node = Arr xs" by (cases node) (auto split: if_splits)
  with 2 have "size property \<le> size_list size xs"
    by (simp add: size_list_estimation')
  with \<open>node = Arr xs\<close> show ?case by simp
next
  case (3 node criteria options0 options matched intoArray intoObject keys acc key child)
  then have "isObject node" by (auto split: if_splits)
  with 3 show ?case by (auto intro: size_get)
qed

declare find_js.simps [simp del]

section \<open>The tree matcher on a bounded call stack\<close>

text \<open>
  \<open>match\<close> and \<open>find\<close> on a call stack that admits a given number of nested calls of the
  two functions: the same code, where a call that finds no room left throws the engine's
  \<^verbatim>\<open>RangeError\<close>. The frames of \<^verbatim>\<open>every\<close>, \<^verbatim>\<open>some\<close>, \<^verbatim>\<open>reduce\<close> and their callbacks
  are not counted; they only make the room smaller.
\<close>

fun match_stack :: "nat \<Rightarrow> jsval \<Rightarrow> jsval \<Rightarrow> error + bool" where
  "match_stack 0 node criteria = Inl Native_RangeError"
| "match_stack (Suc room) node criteria =
     (if \<not> isObject node then
        (if strict_eq node criteria then Inr True else Inr False)
      else if \<not> isObject criteria then Inr False
      else
        bindE (object_keys criteria) (\<lambda>criteriaKeys.
          every (\<lambda>criteriaKey.
            bindE (object_keys node) (\<lambda>nodeKeys.
              some (\<lambda>nodeKey.
                bindE (get node nodeKey) (\<lambda>nodeValue.
                bindE (get criteria criteriaKey) (\<lambda>criteriaValue.
                  match_stack room nodeValue criteriaValue)))
                nodeKeys))
            criteriaKeys))"

fun find_stack :: "nat \<Rightarrow> jsval \<Rightarrow> jsval \<Rightarrow> jsval \<Rightarrow> error + jsval list" where
  "find_stack 0 node criteria options0 = Inl Native_RangeError"
| "find_stack (Suc room) node criteria options0 =
     (let options = (if truthy options0 then options0 else Obj []) in
      bindE (match_stack room node criteria) (\<lambda>matched.
        if matched then Inr [node]
        else
          bindE (if isArray node then bindE (get options (Name ''array'')) (\<lambda>a. Inr (truthy a))
                 else Inr False) (\<lambda>intoArray.
            if intoArray then
              reduce (\<lambda>results property.
                  bindE (find_stack room property criteria options)
                    (\<lambda>found. Inr (results @ found)))
                (elements_of node) []
            else
              bindE (if isObject node
                     then bindE (get options (Name ''recursive'')) (\<lambda>r. Inr (truthy r))
                     else Inr False) (\<lambda>intoObject.
                if intoObject then
                  bindE (object_keys node) (\<lambda>keys.
                    reduce (\<lambda>results key.
                        bindE (get node key) (\<lambda>child.
                        bindE (find_stack room child criteria options) (\<lambda>found.
                          Inr (results @ found))))
                      keys [])
                else Inr []))))"


section \<open>Assertions\<close>

text \<open>
  \<^verbatim>\<open>
  function fail (message, filePath, lineNumber) {
    let debugFriendlyMessage
    if (filePath) {
      debugFriendlyMessage = `Error parsing "${filePath}"`
      if (lineNumber) {
        debugFriendlyMessage += ` at line ${lineNumber}`
      }
      debugFriendlyMessage += `:\n${message}`
    } else {
      debugFriendlyMessage = message
    }

    throw new TypeError(debugFriendlyMessage)
  }
  \<close>
\<close>

definition fail :: "message \<Rightarrow> jsval \<Rightarrow> jsval \<Rightarrow> error + 'a" where
  "fail message filePath lineNumber =
     Inl (Diagnostic
       (if truthy filePath then
          (if truthy lineNumber then Error_parsing_at_line filePath lineNumber message
           else Error_parsing filePath message)
        else Plain message))"

text \<open>A chain of property reads, \<^verbatim>\<open>v.a.b.c\<close>.\<close>

fun dots :: "jsval \<Rightarrow> string list \<Rightarrow> error + jsval" where
  "dots v [] = Inr v"
| "dots v (n # ns) = bindE (get v (Name n)) (\<lambda>w. dots w ns)"

text \<open>\<^verbatim>\<open>types.has(v)\<close> for a \<^verbatim>\<open>Set\<close> of strings, listed in insertion order.\<close>

fun has :: "string list \<Rightarrow> jsval \<Rightarrow> bool" where
  "has types (Str s) = (s \<in> set types)"
| "has types v = False"

definition FUNCTION_EXPRESSION_TYPES :: "string list" where
  "FUNCTION_EXPRESSION_TYPES = [''FunctionExpression'', ''ArrowFunctionExpression'']"

definition ARRAY_TYPES :: "string list" where
  "ARRAY_TYPES = [''ArrayExpression'']"

definition RETURN_TYPES :: "string list" where
  "RETURN_TYPES = [''ReturnStatement'']"

definition OBJECT_TYPES :: "string list" where
  "OBJECT_TYPES = [''ObjectExpression'']"

definition LITERAL_TYPES :: "string list" where
  "LITERAL_TYPES = [''Literal'']"

definition IDENTIFIER_TYPES :: "string list" where
  "IDENTIFIER_TYPES = [''Identifier'']"

text \<open>
  \<^verbatim>\<open>
  function assertType (node, types, filePath) {
    if (! node) {
      fail(`Expected type [${Array.from(types).join(',')}], found nothing`, filePath)
    }

    const nodeType = node.type

    if (! types.has(nodeType)) {
      const line = node.loc.start.line
      const column = node.loc.start.column
      fail(`Expected type [${Array.from(types).join(',')}], found "${nodeType}" at column "${column}"`, filePath, line)
    }
  }
  \<close>
\<close>

definition assertType :: "jsval \<Rightarrow> string list \<Rightarrow> jsval \<Rightarrow> error + unit" where
  "assertType node types filePath =
     (if \<not> truthy node then fail (Expected_type_found_nothing types) filePath Undefined
      else
        bindE (get node (Name ''type'')) (\<lambda>nodeType.
          if \<not> has types nodeType then
            bindE (dots node [''loc'', ''start'', ''line'']) (\<lambda>line.
            bindE (dots node [''loc'', ''start'', ''column'']) (\<lambda>column.
              fail (Expected_type_found types nodeType column) filePath line))
          else Inr ()))"

section \<open>Locating the route definitions\<close>

text \<open>The option objects \<^verbatim>\<open>{ recursive: true }\<close> and \<^verbatim>\<open>{ array: true }\<close>.\<close>

definition recursive_option :: jsval where
  "recursive_option = Obj [(''recursive'', Bool True)]"

definition array_option :: jsval where
  "array_option = Obj [(''array'', Bool True)]"

text \<open>
  \<^verbatim>\<open>
  function findExportedFunction (node, filePath) {
    const exported = find(node, {
      type: 'ExpressionStatement',
      expression: {
        type: 'AssignmentExpression',
        left: {
          type: 'MemberExpression',
          object: {
            type: 'Identifier',
            name: 'module'
          },
          property: {
            type: 'Identifier',
            name: 'exports'
          }
        }
      }
    }, {
      recursive: true
    })

    if (exported.length !== 1) {
      fail(`Expected 1 export, found ${exported.length}`, filePath)
    }

    const exportedFunction = exported[0].expression.right
    assertType(exportedFunction, FUNCTION_EXPRESSION_TYPES, filePath)

    return exportedFunction.body
  }
  \<close>
\<close>

definition export_criteria :: jsval where
  "export_criteria =
     Obj [(''type'', Str ''ExpressionStatement''),
          (''expression'', Obj [
             (''type'', Str ''AssignmentExpression''),
             (''left'', Obj [
                (''type'', Str ''MemberExpression''),
                (''object'', Obj [(''type'', Str ''Identifier''), (''name'', Str ''module'')]),
                (''property'', Obj [(''type'', Str ''Identifier''), (''name'', Str ''exports'')])])])]"

definition findExportedFunction :: "jsval \<Rightarrow> jsval \<Rightarrow> error + jsval" where
  "findExportedFunction node filePath =
     bindE (find_js node export_criteria recursive_option) (\<lambda>exported.
       if length exported \<noteq> 1 then fail (Expected_export (length exported)) filePath Undefined
       else
         bindE (dots (exported ! 0) [''expression'', ''right'']) (\<lambda>exportedFunction.
         bindE (assertType exportedFunction FUNCTION_EXPRESSION_TYPES filePath) (\<lambda>_.
           get exportedFunction (Name ''body''))))"

text \<open>
  \<^verbatim>\<open>
  function findReturnedData (functionNode, filePath) {
    let returnedData
    if (functionNode.type === 'BlockStatement') {
      const returned = find(functionNode.body, {
        type: 'ReturnStatement'
      }, {
        array: true
      })

      if (returned.length !== 1) {
        fail(`Expected 1 return statement, found ${returned.length}`, filePath)
      }

      returnedData = returned[0].argument
    } else {
      assertType(returnedData, RETURN_TYPES, filePath)
      returnedData = functionNode.argument
    }

    if (returnedData.type === 'Identifier') {
      const routeDefinitions = find(functionNode, {
        type: 'VariableDeclarator',
        id: {
          type: 'Identifier',
          name: returnedData.name
        }
      }, {
        recursive: true
      })

      if (routeDefinitions.length !== 1) {
        fail(`Expected 1 set of route definitions, found ${routeDefinitions.length}`, filePath)
      }

      returnedData = routeDefinitions[0].init
    }

    assertType(returnedData, ARRAY_TYPES, filePath)

    return returnedData.elements
  }
  \<close>
  In the \<^verbatim>\<open>else\<close> branch \<^verbatim>\<open>returnedData\<close> has not been assigned yet when it is passed to
  \<^verbatim>\<open>assertType\<close>: its value there is \<^verbatim>\<open>undefined\<close>.
\<close>

definition return_criteria :: jsval where
  "return_criteria = Obj [(''type'', Str ''ReturnStatement'')]"

definition declarator_criteria :: "jsval \<Rightarrow> jsval" where
  "declarator_criteria name =
     Obj [(''type'', Str ''VariableDeclarator''),
          (''id'', Obj [(''type'', Str ''Identifier''), (''name'', name)])]"

definition findReturnedData :: "jsval \<Rightarrow> jsval \<Rightarrow> error + jsval" where
  "findReturnedData functionNode filePath =
     bindE (get functionNode (Name ''type'')) (\<lambda>functionType.
     bindE
       (if strict_eq functionType (Str ''BlockStatement'') then
          bindE (get functionNode (Name ''body'')) (\<lambda>body.
          bindE (find_js body return_criteria array_option) (\<lambda>returned.
            if length returned \<noteq> 1
            then fail (Expected_return (length returned)) filePath Undefined
            else get (returned ! 0) (Name ''argument'')))
        else
          bindE (assertType Undefined RETURN_TYPES filePath) (\<lambda>_.
            get functionNode (Name ''argument'')))
       (\<lambda>returnedData.
     bindE (get returnedData (Name ''type'')) (\<lambda>returnedType.
     bindE
       (if strict_eq returnedType (Str ''Identifier'') then
          bindE (get returnedData (Name ''name'')) (\<lambda>name.
          bindE (find_js functionNode (declarator_criteria name) recursive_option)
            (\<lambda>routeDefinitions.
            if length routeDefinitions \<noteq> 1
            then fail (Expected_route_definitions (length routeDefinitions)) filePath Undefined
            else get (routeDefinitions ! 0) (Name ''init'')))
        else Inr returnedData)
       (\<lambda>returnedData.
     bindE (assertType returnedData ARRAY_TYPES filePath) (\<lambda>_.
       get returnedData (Name ''elements''))))))"

section \<open>Property extractors\<close>

text \<open>
  \<^verbatim>\<open>
  function findProperty (node, key, types, filePath) {
    const found = find(node.properties, {
      type: 'Property',
      kind: 'init',
      key: {
        type: 'Identifier',
        name: key
      }
    }, {
      array: true
    })[0]

    if (found) {
      assertType(found.value, types, filePath)

      return found.value
    }
  }
  \<close>
  \<^verbatim>\<open>xs[0]\<close> is \<^verbatim>\<open>undefined\<close> for an empty array; a function that ends without
  \<^verbatim>\<open>return\<close> returns \<^verbatim>\<open>undefined\<close>.
\<close>

definition property_criteria :: "string \<Rightarrow> jsval" where
  "property_criteria key =
     Obj [(''type'', Str ''Property''),
          (''kind'', Str ''init''),
          (''key'', Obj [(''type'', Str ''Identifier''), (''name'', Str key)])]"

fun first :: "jsval list \<Rightarrow> jsval" where
  "first [] = Undefined"
| "first (x # xs) = x"

definition findProperty :: "jsval \<Rightarrow> string \<Rightarrow> string list \<Rightarrow> jsval \<Rightarrow> error + jsval" where
  "findProperty node key types filePath =
     bindE (get node (Name ''properties'')) (\<lambda>properties.
     bindE (find_js properties (property_criteria key) array_option) (\<lambda>results.
       let found = first results in
       if truthy found then
         bindE (get found (Name ''value'')) (\<lambda>foundValue.
         bindE (assertType foundValue types filePath) (\<lambda>_.
           get found (Name ''value'')))
       else Inr Undefined))"

text \<open>
  \<^verbatim>\<open>
  function findRoutePath (route, filePath) {
    return findProperty(route, 'path', LITERAL_TYPES, filePath).value
  }

  function findRouteMethod (route, filePath) {
    return findProperty(route, 'method', LITERAL_TYPES, filePath).value
  }

  function findRouteConfig (route, filePath) {
    return findProperty(route, 'config', OBJECT_TYPES, filePath)
  }

  function findRouteValidation (routeConfig, filePath) {
    return findProperty(routeConfig, 'validate', OBJECT_TYPES, filePath)
  }

  function findRouteResponse (routeConfig, filePath) {
    return findProperty(routeConfig, 'response', OBJECT_TYPES, filePath)
  }
  \<close>
\<close>

definition findRoutePath :: "jsval \<Rightarrow> jsval \<Rightarrow> error + jsval" where
  "findRoutePath route filePath =
     bindE (findProperty route ''path'' LITERAL_TYPES filePath) (\<lambda>p. get p (Name ''value''))"

definition findRouteMethod :: "jsval \<Rightarrow> jsval \<Rightarrow> error + jsval" where
  "findRouteMethod route filePath =
     bindE (findProperty route ''method'' LITERAL_TYPES filePath) (\<lambda>p. get p (Name ''value''))"

definition findRouteConfig :: "jsval \<Rightarrow> jsval \<Rightarrow> error + jsval" where
  "findRouteConfig route filePath = findProperty route ''config'' OBJECT_TYPES filePath"

definition findRouteValidation :: "jsval \<Rightarrow> jsval \<Rightarrow> error + jsval" where
  "findRouteValidation routeConfig filePath =
     findProperty routeConfig ''validate'' OBJECT_TYPES filePath"

definition findRouteResponse :: "jsval \<Rightarrow> jsval \<Rightarrow> error + jsval" where
  "findRouteResponse routeConfig filePath =
     findProperty routeConfig ''response'' OBJECT_TYPES filePath"

section \<open>Authentication strategies\<close>

text \<open>
  Conversion to a string, as \<^verbatim>\<open>RegExp.prototype.test\<close> and \<^verbatim>\<open>Array.prototype.join\<close>
  apply it to their arguments. The digits that the language prints for a number are a
  parameter \<open>ns\<close>: nothing below depends on them.
\<close>

fun join_strings :: "string \<Rightarrow> string list \<Rightarrow> string" where
  "join_strings sep [] = []"
| "join_strings sep [s] = s"
| "join_strings sep (s # t # ss) = s @ sep @ join_strings sep (t # ss)"

fun to_string :: "(jsnum \<Rightarrow> string) \<Rightarrow> jsval \<Rightarrow> string" where
  "to_string ns Undefined = ''undefined''"
| "to_string ns Null = ''null''"
| "to_string ns (Bool b) = (if b then ''true'' else ''false'')"
| "to_string ns (Num n) = ns n"
| "to_string ns (Str s) = s"
| "to_string ns (Arr xs) =
     join_strings '',''
       (map (\<lambda>x. if x = Undefined \<or> x = Null then [] else to_string ns x) xs)"
| "to_string ns (Obj kvs) = ''[object Object]''"

text \<open>\<^verbatim>\<open>xs.join(sep)\<close>: \<^verbatim>\<open>undefined\<close> and \<^verbatim>\<open>null\<close> elements give the empty string.\<close>

definition join :: "(jsnum \<Rightarrow> string) \<Rightarrow> string \<Rightarrow> jsval list \<Rightarrow> string" where
  "join ns sep xs =
     join_strings sep
       (map (\<lambda>x. if x = Undefined \<or> x = Null then [] else to_string ns x) xs)"

text \<open>
  \<^verbatim>\<open>
  const SESSION_TOKEN_STRATEGY = /^sessionToken/
  const KEY_FETCH_TOKEN_STRATEGY = /^keyFetchToken/

  function marshallStrategy (strategy) {
    if (SESSION_TOKEN_STRATEGY.test(strategy)) {
      return 'sessionToken'
    }

    if (KEY_FETCH_TOKEN_STRATEGY.test(strategy)) {
      return 'keyFetchToken'
    }

    return strategy
  }
  \<close>
  A regular expression \<^verbatim>\<open>/^word/\<close> accepts the strings that begin with the word.
\<close>

definition SESSION_TOKEN_STRATEGY :: "string \<Rightarrow> bool" where
  "SESSION_TOKEN_STRATEGY s = prefix ''sessionToken'' s"

definition KEY_FETCH_TOKEN_STRATEGY :: "string \<Rightarrow> bool" where
  "KEY_FETCH_TOKEN_STRATEGY s = prefix ''keyFetchToken'' s"

definition marshallStrategy :: "(jsnum \<Rightarrow> string) \<Rightarrow> jsval \<Rightarrow> jsval" where
  "marshallStrategy ns strategy =
     (if SESSION_TOKEN_STRATEGY (to_string ns strategy) then Str ''sessionToken''
      else if KEY_FETCH_TOKEN_STRATEGY (to_string ns strategy) then Str ''keyFetchToken''
      else strategy)"

text \<open>\<^verbatim>\<open>xs.indexOf(v)\<close>, which compares with \<^verbatim>\<open>===\<close>, and \<^verbatim>\<open>xs.map(f)\<close> for an \<open>f\<close> that may throw.\<close>

fun indexOf :: "jsval list \<Rightarrow> jsval \<Rightarrow> int" where
  "indexOf [] v = - 1"
| "indexOf (x # xs) v =
     (if strict_eq x v then 0
      else (let i = indexOf xs v in if i = - 1 then - 1 else i + 1))"

fun mapE :: "('a \<Rightarrow> error + 'b) \<Rightarrow> 'a list \<Rightarrow> error + 'b list" where
  "mapE f [] = Inr []"
| "mapE f (x # xs) = bindE (f x) (\<lambda>y. bindE (mapE f xs) (\<lambda>ys. Inr (y # ys)))"

text \<open>
  The callback of the \<^verbatim>\<open>reduce\<close> in \<^verbatim>\<open>findRouteAuthentication\<close>:
  \<^verbatim>\<open>
  (deduped, strategy) => {
    if (deduped.indexOf(strategy) === -1) {
      deduped.push(strategy)
    }
    return deduped
  }
  \<close>
\<close>

definition dedupe :: "jsval list \<Rightarrow> jsval \<Rightarrow> jsval list" where
  "dedupe deduped strategy =
     (if indexOf deduped strategy = - 1 then deduped @ [strategy] else deduped)"

text \<open>
  \<^verbatim>\<open>
  function findRouteAuthentication (routeConfig, filePath) {
    const routeAuthentication = findProperty(routeConfig, 'auth', OBJECT_TYPES, filePath)
    if (routeAuthentication) {
      let optional = false, type

      const mode = findProperty(routeAuthentication, 'mode', LITERAL_TYPES, filePath)
      if (mode && (mode.value === 'try' || mode.value === 'optional')) {
        optional = true
      }

      const strategies = findProperty(routeAuthentication, 'strategies', ARRAY_TYPES, filePath)
      if (strategies) {
        type = strategies.elements.map(strategy => {
          assertType(strategy, LITERAL_TYPES, filePath)
          return marshallStrategy(strategy.value)
        })
        .reduce((deduped, strategy) => {
          if (deduped.indexOf(strategy) === -1) {
            deduped.push(strategy)
          }
          return deduped
        }, [])
        .join(', ')
      } else {
        const strategy = findProperty(routeAuthentication, 'strategy', LITERAL_TYPES, filePath)
        if (strategy) {
          type = marshallStrategy(strategy.value)
        }
      }

      if (! type) {
        fail('Missing authentication strategy', filePath, routeAuthentication.loc.start.line)
      }

      return { optional, type }
    }
  }
  \<close>
  \<^verbatim>\<open>strategies.elements.map\<close> is a call: it throws unless \<^verbatim>\<open>elements\<close> is an array.
\<close>

definition findRouteAuthentication ::
  "(jsnum \<Rightarrow> string) \<Rightarrow> jsval \<Rightarrow> jsval \<Rightarrow> error + jsval" where
  "findRouteAuthentication ns routeConfig filePath =
     bindE (findProperty routeConfig ''auth'' OBJECT_TYPES filePath) (\<lambda>routeAuthentication.
       if truthy routeAuthentication then
         bindE (findProperty routeAuthentication ''mode'' LITERAL_TYPES filePath) (\<lambda>mode.
         bindE
           (if truthy mode then
              bindE (get mode (Name ''value'')) (\<lambda>modeValue.
                Inr (strict_eq modeValue (Str ''try'') \<or> strict_eq modeValue (Str ''optional'')))
            else Inr False)
           (\<lambda>optional.
         bindE (findProperty routeAuthentication ''strategies'' ARRAY_TYPES filePath)
           (\<lambda>strategies.
         bindE
           (if truthy strategies then
              bindE (get strategies (Name ''elements'')) (\<lambda>elements.
                case elements of
                  Arr xs \<Rightarrow>
                    bindE
                      (mapE (\<lambda>strategy.
                         bindE (assertType strategy LITERAL_TYPES filePath) (\<lambda>_.
                         bindE (get strategy (Name ''value'')) (\<lambda>strategyValue.
                           Inr (marshallStrategy ns strategyValue)))) xs)
                      (\<lambda>names. Inr (Str (join ns '', '' (foldl dedupe [] names))))
                | _ \<Rightarrow> Inl Native_TypeError)
            else
              bindE (findProperty routeAuthentication ''strategy'' LITERAL_TYPES filePath)
                (\<lambda>strategy.
                  if truthy strategy then
                    bindE (get strategy (Name ''value'')) (\<lambda>strategyValue.
                      Inr (marshallStrategy ns strategyValue))
                  else Inr Undefined))
           (\<lambda>type.
             if \<not> truthy type then
               bindE (dots routeAuthentication [''loc'', ''start'', ''line'']) (\<lambda>line.
                 fail Missing_authentication_strategy filePath line)
             else Inr (Obj [(''optional'', Bool optional), (''type'', type)])))))
       else Inr Undefined)"

section \<open>The handler\<close>

text \<open>
  \<^verbatim>\<open>
  function findRouteHandler (route, filePath) {
    try {
      return findProperty(route, 'handler', FUNCTION_EXPRESSION_TYPES, filePath).value
    } catch (error) {
      const handlerName = findProperty(route, 'handler', IDENTIFIER_TYPES, filePath).name
    }
  }
  \<close>
  The \<^verbatim>\<open>catch\<close> block catches whatever the \<^verbatim>\<open>try\<close> block throws and returns nothing.
\<close>

definition findRouteHandler :: "jsval \<Rightarrow> jsval \<Rightarrow> error + jsval" where
  "findRouteHandler route filePath =
     (case bindE (findProperty route ''handler'' FUNCTION_EXPRESSION_TYPES filePath)
             (\<lambda>handlerFunction. get handlerFunction (Name ''value'')) of
        Inr handler \<Rightarrow> Inr handler
      | Inl error \<Rightarrow>
          bindE (findProperty route ''handler'' IDENTIFIER_TYPES filePath) (\<lambda>identifier.
          bindE (get identifier (Name ''name'')) (\<lambda>handlerName.
            Inr Undefined)))"

section \<open>Route descriptors\<close>

text \<open>
  What \<^verbatim>\<open>generateOutput\<close> extracts from one route before it writes the text:
  \<^verbatim>\<open>
  routes.forEach(route => {
    assertType(route, OBJECT_TYPES, filePath)
    const routeMethod = findRouteMethod(route, filePath)
    const routePath = findRoutePath(route, filePath)
    const routeConfig = findRouteConfig(route, filePath)
    let routeAuthentication, routeValidation, routeResponse
    if (routeConfig) {
      routeAuthentication = findRouteAuthentication(routeConfig, filePath)
      routeValidation = findRouteValidation(routeConfig, filePath)
      routeResponse = findRouteResponse(routeConfig, filePath)
    }
    const routeHandler = findRouteHandler(route, filePath)
    ...
  })
  \<close>
  The rest of the callback formats these six values and throws nothing.
\<close>

record descriptor =
  routeMethod :: jsval
  routePath :: jsval
  routeAuthentication :: jsval
  routeValidation :: jsval
  routeResponse :: jsval
  routeHandler :: jsval

definition extractRoute :: "(jsnum \<Rightarrow> string) \<Rightarrow> jsval \<Rightarrow> jsval \<Rightarrow> error + descriptor" where
  "extractRoute ns route filePath =
     bindE (assertType route OBJECT_TYPES filePath) (\<lambda>_.
     bindE (findRouteMethod route filePath) (\<lambda>method.
     bindE (findRoutePath route filePath) (\<lambda>path.
     bindE (findRouteConfig route filePath) (\<lambda>routeConfig.
     bindE
       (if truthy routeConfig then
          bindE (findRouteAuthentication ns routeConfig filePath) (\<lambda>authentication.
          bindE (findRouteValidation routeConfig filePath) (\<lambda>validation.
          bindE (findRouteResponse routeConfig filePath) (\<lambda>response.
            Inr (authentication, validation, response))))
        else Inr (Undefined, Undefined, Undefined))
       (\<lambda>(authentication, validation, response).
     bindE (findRouteHandler route filePath) (\<lambda>handler.
       Inr \<lparr>routeMethod = method, routePath = path, routeAuthentication = authentication,
            routeValidation = validation, routeResponse = response,
            routeHandler = handler\<rparr>))))))"

text \<open>
  The routes of one function body, \<^verbatim>\<open>findReturnedData(exportedFunction, filePath)\<close> followed
  by \<^verbatim>\<open>routes.forEach\<close>, and of one file, from \<^verbatim>\<open>findExportedFunction(ast, filePath)\<close> on.
\<close>

definition extractRoutes ::
  "(jsnum \<Rightarrow> string) \<Rightarrow> jsval \<Rightarrow> jsval \<Rightarrow> error + descriptor list" where
  "extractRoutes ns exportedFunction filePath =
     bindE (findReturnedData exportedFunction filePath) (\<lambda>routes.
       case routes of
         Arr xs \<Rightarrow> mapE (\<lambda>route. extractRoute ns route filePath) xs
       | _ \<Rightarrow> Inl Native_TypeError)"

definition extractFile ::
  "(jsnum \<Rightarrow> string) \<Rightarrow> jsval \<Rightarrow> jsval \<Rightarrow> error + descriptor list" where
  "extractFile ns ast filePath =
     bindE (findExportedFunction ast filePath) (\<lambda>exportedFunction.
       extractRoutes ns exportedFunction filePath)"

section \<open>Vocabulary of the statements\<close>

text \<open>The keys and the property values of a value, where reading them cannot fail.\<close>

definition keys_of :: "jsval \<Rightarrow> key list" where
  "keys_of v = (case object_keys v of Inr ks \<Rightarrow> ks | Inl e \<Rightarrow> [])"

definition value_at :: "jsval \<Rightarrow> key \<Rightarrow> jsval" where
  "value_at v k = (case get v k of Inr x \<Rightarrow> x | Inl e \<Rightarrow> Undefined)"

text \<open>
  A node is called a property of a name when it matches the criteria that \<^verbatim>\<open>findProperty\<close>
  builds for that name.
\<close>

definition is_property :: "string \<Rightarrow> jsval \<Rightarrow> bool" where
  "is_property key p = (match p (property_criteria key) = Inr True)"

text \<open>The depth of nesting of a value, and the array nested to a given depth.\<close>

fun height :: "jsval \<Rightarrow> nat" where
  "height (Arr xs) = Suc (foldr (\<lambda>x. max (height x)) xs 0)"
| "height (Obj kvs) = Suc (foldr (\<lambda>kv. max (height (snd kv))) kvs 0)"
| "height v = 0"

fun nest :: "nat \<Rightarrow> jsval" where
  "nest 0 = Arr []"
| "nest (Suc n) = Arr [nest n]"

text \<open>
  The body of \<open>find\<close> after the options are defaulted, given the result of its call of
  \<open>match\<close> and the function that its recursive calls compute.
\<close>

definition find_body ::
  "error + bool \<Rightarrow> (jsval \<Rightarrow> error + jsval list) \<Rightarrow> jsval \<Rightarrow> jsval \<Rightarrow> error + jsval list" where
  "find_body matching search node options =
     bindE matching (\<lambda>matched.
       if matched then Inr [node]
       else if isArray node \<and> truthy (value_at options (Name ''array'')) then
         reduce (\<lambda>results property. bindE (search property) (\<lambda>found. Inr (results @ found)))
           (elements_of node) []
       else if isObject node \<and> truthy (value_at options (Name ''recursive'')) then
         reduce (\<lambda>results key.
             bindE (search (value_at node key)) (\<lambda>found. Inr (results @ found)))
           (keys_of node) []
       else Inr [])"

text \<open>Some member of a value, under whatever key, has a given property.\<close>

definition some_member :: "(jsval \<Rightarrow> bool) \<Rightarrow> jsval \<Rightarrow> bool" where
  "some_member P v = list_ex (\<lambda>k. P (value_at v k)) (keys_of v)"

text \<open>
  What the criteria of \<^verbatim>\<open>findProperty\<close> ask of a node, member names being ignored: some
  member is the string \<^verbatim>\<open>'Property'\<close>, some member is the string \<^verbatim>\<open>'init'\<close>, and some member
  is an object or array with a member \<^verbatim>\<open>'Identifier'\<close> and a member equal to the requested
  name.
\<close>

definition accepted_for :: "string \<Rightarrow> jsval \<Rightarrow> bool" where
  "accepted_for key p =
     (isObject p \<and>
      some_member (\<lambda>v. v = Str ''Property'') p \<and>
      some_member (\<lambda>v. v = Str ''init'') p \<and>
      some_member (\<lambda>m. isObject m \<and>
         some_member (\<lambda>v. v = Str ''Identifier'') m \<and>
         some_member (\<lambda>v. v = Str key) m) p)"

text \<open>An \<^verbatim>\<open>init\<close> property whose key is the identifier of a name.\<close>

definition keyed_property :: "string \<Rightarrow> jsval \<Rightarrow> bool" where
  "keyed_property key p =
     (value_at p (Name ''type'') = Str ''Property'' \<and>
      value_at p (Name ''kind'') = Str ''init'' \<and>
      value_at (value_at p (Name ''key'')) (Name ''type'') = Str ''Identifier'' \<and>
      value_at (value_at p (Name ''key'')) (Name ''name'') = Str key)"

text \<open>The lookups that the callback of \<^verbatim>\<open>routes.forEach\<close> makes before the handler lookup.\<close>

definition lookups_before_handler ::
  "(jsnum \<Rightarrow> string) \<Rightarrow> jsval \<Rightarrow> jsval \<Rightarrow> error + jsval \<times> jsval \<times> jsval \<times> jsval \<times> jsval" where
  "lookups_before_handler ns route filePath =
     bindE (assertType route OBJECT_TYPES filePath) (\<lambda>_.
     bindE (findRouteMethod route filePath) (\<lambda>method.
     bindE (findRoutePath route filePath) (\<lambda>path.
     bindE (findRouteConfig route filePath) (\<lambda>routeConfig.
     bindE
       (if truthy routeConfig then
          bindE (findRouteAuthentication ns routeConfig filePath) (\<lambda>authentication.
          bindE (findRouteValidation routeConfig filePath) (\<lambda>validation.
          bindE (findRouteResponse routeConfig filePath) (\<lambda>response.
            Inr (authentication, validation, response))))
        else Inr (Undefined, Undefined, Undefined))
       (\<lambda>(authentication, validation, response).
         Inr (method, path, authentication, validation, response))))))"

text \<open>
  The strategy normalizer in the words of the specification: a name that begins with
  \<^verbatim>\<open>sessionToken\<close> or \<^verbatim>\<open>keyFetchToken\<close> collapses to that token; names are deduplicated
  keeping the first occurrence of each, in order.
\<close>

definition canonical_strategy :: "string \<Rightarrow> string" where
  "canonical_strategy s =
     (if prefix ''sessionToken'' s then ''sessionToken''
      else if prefix ''keyFetchToken'' s then ''keyFetchToken''
      else s)"

function first_occurrences :: "'a list \<Rightarrow> 'a list" where
  "first_occurrences [] = []"
| "first_occurrences (x # xs) = x # first_occurrences (filter (\<lambda>y. y \<noteq> x) xs)"
  by pat_completeness auto
termination
  by (relation "measure length") (simp_all add: less_Suc_eq_le)

section \<open>Sample trees\<close>

text \<open>
  Nodes as acorn builds them with \<^verbatim>\<open>locations: true\<close>: the \<^verbatim>\<open>type\<close>, the offsets, the
  position and then the members of the node type. They are the inputs of the worked
  examples below. A sample has its line; its offsets and columns are 0.
\<close>

definition position :: "int \<Rightarrow> jsval" where
  "position line = Obj [(''line'', Num (Finite (of_int line))), (''column'', Num (Finite 0))]"

definition ast_node :: "string \<Rightarrow> int \<Rightarrow> (string \<times> jsval) list \<Rightarrow> jsval" where
  "ast_node type line members =
     Obj ((''type'', Str type) #
          (''start'', Num (Finite 0)) #
          (''end'', Num (Finite 0)) #
          (''loc'', Obj [(''start'', position line), (''end'', position line)]) #
          members)"

definition Identifier_node :: "int \<Rightarrow> string \<Rightarrow> jsval" where
  "Identifier_node line name = ast_node ''Identifier'' line [(''name'', Str name)]"

definition Literal_node :: "int \<Rightarrow> string \<Rightarrow> jsval" where
  "Literal_node line text =
     ast_node ''Literal'' line [(''value'', Str text), (''raw'', Str ([CHR 39] @ text @ [CHR 39]))]"

definition Property_node :: "int \<Rightarrow> string \<Rightarrow> jsval \<Rightarrow> jsval" where
  "Property_node line name v =
     ast_node ''Property'' line
       [(''method'', Bool False), (''shorthand'', Bool False), (''computed'', Bool False),
        (''key'', Identifier_node line name), (''value'', v), (''kind'', Str ''init'')]"

definition ObjectExpression_node :: "int \<Rightarrow> jsval list \<Rightarrow> jsval" where
  "ObjectExpression_node line properties =
     ast_node ''ObjectExpression'' line [(''properties'', Arr properties)]"

definition ArrayExpression_node :: "int \<Rightarrow> jsval list \<Rightarrow> jsval" where
  "ArrayExpression_node line elements =
     ast_node ''ArrayExpression'' line [(''elements'', Arr elements)]"

definition BlockStatement_node :: "int \<Rightarrow> jsval list \<Rightarrow> jsval" where
  "BlockStatement_node line body = ast_node ''BlockStatement'' line [(''body'', Arr body)]"

definition ReturnStatement_node :: "int \<Rightarrow> jsval \<Rightarrow> jsval" where
  "ReturnStatement_node line argument =
     ast_node ''ReturnStatement'' line [(''argument'', argument)]"

definition VariableDeclarator_node :: "int \<Rightarrow> string \<Rightarrow> jsval \<Rightarrow> jsval" where
  "VariableDeclarator_node line name init =
     ast_node ''VariableDeclarator'' line
       [(''id'', Identifier_node line name), (''init'', init)]"

definition VariableDeclaration_node :: "int \<Rightarrow> jsval list \<Rightarrow> jsval" where
  "VariableDeclaration_node line declarations =
     ast_node ''VariableDeclaration'' line
       [(''declarations'', Arr declarations), (''kind'', Str ''const'')]"

definition FunctionExpression_node :: "int \<Rightarrow> jsval" where
  "FunctionExpression_node line =
     ast_node ''FunctionExpression'' line
       [(''id'', Null), (''generator'', Bool False), (''expression'', Bool False),
        (''params'', Arr []), (''body'', BlockStatement_node line [])]"

definition ArrowFunction_node :: "int \<Rightarrow> jsval \<Rightarrow> jsval" where
  "ArrowFunction_node line body =
     ast_node ''ArrowFunctionExpression'' line
       [(''id'', Null), (''generator'', Bool False), (''expression'', Bool True),
        (''params'', Arr []), (''body'', body)]"

text \<open>The statement \<^verbatim>\<open>module.exports = right\<close> and the program of a file.\<close>

definition exports_statement :: "int \<Rightarrow> jsval \<Rightarrow> jsval" where
  "exports_statement line right =
     ast_node ''ExpressionStatement'' line
       [(''expression'', ast_node ''AssignmentExpression'' line
          [(''operator'', Str ''=''),
           (''left'', ast_node ''MemberExpression'' line
              [(''object'', Identifier_node line ''module''),
               (''property'', Identifier_node line ''exports''),
               (''computed'', Bool False)]),
           (''right'', right)])]"

definition Program_node :: "jsval list \<Rightarrow> jsval" where
  "Program_node body =
     ast_node ''Program'' 1 [(''body'', Arr body), (''sourceType'', Str ''script'')]"

lemmas ast_defs = position_def ast_node_def Identifier_node_def Literal_node_def
  Property_node_def ObjectExpression_node_def ArrayExpression_node_def BlockStatement_node_def
  ReturnStatement_node_def VariableDeclarator_node_def VariableDeclaration_node_def
  FunctionExpression_node_def ArrowFunction_node_def exports_statement_def Program_node_def

section \<open>Properties of the matcher\<close>

lemma isObject_cases: "isObject v \<longleftrightarrow> (\<exists>xs. v = Arr xs) \<or> (\<exists>kvs. v = Obj kvs)"
  by (cases v) simp_all

lemma object_keys_isObject: "isObject v \<Longrightarrow> object_keys v = Inr (keys_of v)"
  by (auto simp: isObject_cases keys_of_def)

lemma get_isObject: "isObject v \<Longrightarrow> get v k = Inr (value_at v k)"
  by (cases v; cases k) (simp_all add: value_at_def)

lemma get_truthy: "truthy v \<Longrightarrow> get v k = Inr (value_at v k)"
  by (cases v; cases k) (simp_all add: value_at_def)

lemma every_returns:
  assumes "\<And>x. x \<in> set xs \<Longrightarrow> \<exists>b. f x = Inr b"
  shows "every f xs = Inr (\<forall>x \<in> set xs. f x = Inr True)"
  using assms
proof (induction xs)
  case Nil
  then show ?case by simp
next
  case (Cons x xs)
  then obtain b where "f x = Inr b" by auto
  with Cons show ?case by (cases b) auto
qed

lemma some_returns:
  assumes "\<And>x. x \<in> set xs \<Longrightarrow> \<exists>b. f x = Inr b"
  shows "some f xs = Inr (\<exists>x \<in> set xs. f x = Inr True)"
  using assms
proof (induction xs)
  case Nil
  then show ?case by simp
next
  case (Cons x xs)
  then obtain b where "f x = Inr b" by auto
  with Cons show ?case by (cases b) auto
qed

lemma reduce_returns:
  assumes "\<And>acc x. x \<in> set xs \<Longrightarrow> \<exists>r. f acc x = Inr r"
  shows "\<exists>r. reduce f xs acc = Inr r"
  using assms
proof (induction xs arbitrary: acc)
  case Nil
  then show ?case by simp
next
  case (Cons x xs)
  then obtain r where "f acc x = Inr r" by fastforce
  with Cons show ?case by auto
qed

lemma match_structural:
  assumes "isObject node" "isObject criteria"
  shows "match node criteria =
    every (\<lambda>criteriaKey. some (\<lambda>nodeKey.
        match (value_at node nodeKey) (value_at criteria criteriaKey)) (keys_of node))
      (keys_of criteria)"
  using assms by (subst match.simps) (simp add: object_keys_isObject get_isObject)

lemma match_returns: "\<exists>b. match node criteria = Inr b"
proof (induction node criteria rule: match.induct)
  case (1 node criteria)
  show ?case
  proof (cases "isObject node \<and> isObject criteria")
    case False
    then show ?thesis by (subst match.simps) auto
  next
    case True
    have inner: "\<exists>b. match (value_at node nk) (value_at criteria ck) = Inr b"
      if "ck \<in> set (keys_of criteria)" "nk \<in> set (keys_of node)" for ck nk
      using True that
      by (intro "1.IH") (simp_all add: object_keys_isObject get_isObject)
    have "\<exists>b. some (\<lambda>nk. match (value_at node nk) (value_at criteria ck)) (keys_of node) = Inr b"
      if "ck \<in> set (keys_of criteria)" for ck
      using some_returns [of "keys_of node" "\<lambda>nk. match (value_at node nk) (value_at criteria ck)"]
        inner [OF that] by blast
    then show ?thesis
      using True every_returns [of "keys_of criteria"
          "\<lambda>ck. some (\<lambda>nk. match (value_at node nk) (value_at criteria ck)) (keys_of node)"]
      by (simp add: match_structural)
  qed
qed

lemma match_bool: "match node criteria = Inr (match node criteria = Inr True)"
  using match_returns [of node criteria] by auto

lemma match_scalar: "\<not> isObject node \<Longrightarrow> match node criteria = Inr (strict_eq node criteria)"
  by (subst match.simps) simp

lemma strict_eq_structural: "isObject c \<Longrightarrow> \<not> strict_eq n c"
  by (cases n; cases c) simp_all

lemma match_object:
  assumes "isObject c"
  shows "match n c = Inr True \<longleftrightarrow>
    isObject n \<and> (\<forall>ck \<in> set (keys_of c). \<exists>nk \<in> set (keys_of n).
       match (value_at n nk) (value_at c ck) = Inr True)"
proof (cases "isObject n")
  case False
  with assms show ?thesis by (simp add: match_scalar strict_eq_structural)
next
  case True
  have s: "some (\<lambda>nk. match (value_at n nk) (value_at c ck)) (keys_of n) =
      Inr (\<exists>nk \<in> set (keys_of n). match (value_at n nk) (value_at c ck) = Inr True)" for ck
    by (rule some_returns) (rule match_returns)
  have "match n c = Inr (\<forall>ck \<in> set (keys_of c). \<exists>nk \<in> set (keys_of n).
       match (value_at n nk) (value_at c ck) = Inr True)"
    unfolding match_structural [OF True assms] s
    by (subst every_returns) auto
  with True show ?thesis by simp
qed

lemma match_Str: "match v (Str s) = Inr True \<longleftrightarrow> v = Str s"
proof (cases "isObject v")
  case True
  then show ?thesis by (subst match.simps) (auto simp: isObject_cases)
next
  case False
  then show ?thesis by (cases v) (auto simp: match_scalar)
qed

text \<open>
  Claim C1. For every node \<open>n\<close> and criteria \<open>c\<close>: when \<open>c\<close> is scalar, \<open>match\<close> is true exactly
  when \<open>n\<close> is scalar too and strictly equal to \<open>c\<close>; when \<open>c\<close> is structural, \<open>match\<close> is true
  exactly when \<open>n\<close> is structural too and for every key of \<open>c\<close> some key of \<open>n\<close>, of whatever
  name, has a value that matches the value of that key of \<open>c\<close>.
\<close>

theorem match_meaning:
  "(\<not> isObject c \<longrightarrow> (match n c = Inr True \<longleftrightarrow> \<not> isObject n \<and> strict_eq n c)) \<and>
   (isObject c \<longrightarrow> (match n c = Inr True \<longleftrightarrow>
      isObject n \<and> (\<forall>ck \<in> set (keys_of c). \<exists>nk \<in> set (keys_of n).
         match (value_at n nk) (value_at c ck) = Inr True)))"
proof (intro conjI impI)
  assume "\<not> isObject c"
  then show "match n c = Inr True \<longleftrightarrow> \<not> isObject n \<and> strict_eq n c"
    by (subst match.simps) simp
next
  assume c: "isObject c"
  show "match n c = Inr True \<longleftrightarrow>
      isObject n \<and> (\<forall>ck \<in> set (keys_of c). \<exists>nk \<in> set (keys_of n).
         match (value_at n nk) (value_at c ck) = Inr True)"
  proof (cases "isObject n")
    case False
    have "\<not> strict_eq n c" using c False by (cases n; cases c) simp_all
    with False show ?thesis by (subst match.simps) simp
  next
    case True
    have s: "some (\<lambda>nk. match (value_at n nk) (value_at c ck)) (keys_of n) =
        Inr (\<exists>nk \<in> set (keys_of n). match (value_at n nk) (value_at c ck) = Inr True)" for ck
      by (rule some_returns) (rule match_returns)
    have "match n c = Inr (\<forall>ck \<in> set (keys_of c). \<exists>nk \<in> set (keys_of n).
         match (value_at n nk) (value_at c ck) = Inr True)"
      unfolding match_structural [OF True c] s
      by (subst every_returns) auto
    with True show ?thesis by simp
  qed
qed

theorem match_meaning_witness:
  "match (Obj [(''name'', Str ''x'')]) (Obj [(''key'', Str ''x'')]) = Inr True \<and>
   match (Str ''x'') (Obj [(''key'', Str ''x'')]) = Inr False \<and>
   match (Obj [(''name'', Str ''x'')]) (Str ''x'') = Inr False"
  using match_meaning [of "Obj [(''key'', Str ''x'')]" "Obj [(''name'', Str ''x'')]"]
    match_meaning [of "Str ''x''" "Str ''x''"]
    match_meaning [of "Obj [(''key'', Str ''x'')]" "Str ''x''"]
    match_meaning [of "Str ''x''" "Obj [(''name'', Str ''x'')]"]
    match_bool [of "Str ''x''" "Obj [(''key'', Str ''x'')]"]
    match_bool [of "Obj [(''name'', Str ''x'')]" "Str ''x''"]
  by (simp add: keys_of_def value_at_def)

lemma find_js_returns: "\<exists>found. find_js node criteria options = Inr found"
proof (induction node criteria options rule: find_js.induct)
  case (1 node criteria options0)
  define options where "options = (if truthy options0 then options0 else Obj [])"
  have t: "truthy options" by (simp add: options_def)
  obtain matched where m: "match node criteria = Inr matched"
    using match_returns by blast
  show ?case
  proof (cases matched)
    case True
    with m show ?thesis by (subst find_js.simps) simp
  next
    case False
    show ?thesis
    proof (cases "isArray node \<and> truthy (value_at options (Name ''array''))")
      case True
      have "\<exists>r. bindE (find_js property criteria options) (\<lambda>found. Inr (results @ found)) = Inr r"
        if "property \<in> set (elements_of node)" for results property
      proof -
        have "\<exists>found. find_js property criteria options = Inr found"
        proof (rule "1.IH"(1) [OF _ m False _ TrueI that])
          show "options = (if truthy options0 then options0 else Obj [])"
            by (simp add: options_def)
          show "(if isArray node
              then bindE (get options (Name ''array'')) (\<lambda>a. Inr (truthy a))
              else Inr False) = Inr True"
            using True t by (simp add: get_truthy)
        qed
        then show ?thesis by auto
      qed
      then have "\<exists>r. reduce (\<lambda>results property.
          bindE (find_js property criteria options) (\<lambda>found. Inr (results @ found)))
          (elements_of node) [] = Inr r"
        by (intro reduce_returns)
      with m False True t show ?thesis
        by (subst find_js.simps) (simp add: options_def [symmetric] get_truthy Let_def)
    next
      case noArray: False
      show ?thesis
      proof (cases "isObject node \<and> truthy (value_at options (Name ''recursive''))")
        case True
        have "\<exists>r. bindE (get node key) (\<lambda>child.
                bindE (find_js child criteria options) (\<lambda>found. Inr (results @ found))) = Inr r"
          if "key \<in> set (keys_of node)" for results key
        proof -
          have "\<exists>found. find_js (value_at node key) criteria options = Inr found"
          proof (rule "1.IH"(2) [OF _ m False _ _ _ TrueI _ that])
            show "options = (if truthy options0 then options0 else Obj [])"
              by (simp add: options_def)
            show "(if isArray node
                then bindE (get options (Name ''array'')) (\<lambda>a. Inr (truthy a))
                else Inr False) = Inr False"
              using noArray t by (simp add: get_truthy)
            show "\<not> False" by simp
            show "(if isObject node
                then bindE (get options (Name ''recursive'')) (\<lambda>r. Inr (truthy r))
                else Inr False) = Inr True"
              using True t by (simp add: get_truthy)
            show "object_keys node = Inr (keys_of node)"
              using True by (simp add: object_keys_isObject)
            show "get node key = Inr (value_at node key)"
              using True by (simp add: get_isObject)
          qed
          with True show ?thesis by (auto simp: get_isObject)
        qed
        then have "\<exists>r. reduce (\<lambda>results key. bindE (get node key) (\<lambda>child.
                bindE (find_js child criteria options) (\<lambda>found. Inr (results @ found))))
              (keys_of node) [] = Inr r"
          by (intro reduce_returns)
        with m False True noArray t show ?thesis
          by (subst find_js.simps)
             (auto simp: options_def [symmetric] get_truthy Let_def object_keys_isObject)
      next
        case False
        with m \<open>\<not> matched\<close> noArray t show ?thesis
          by (subst find_js.simps) (auto simp: options_def [symmetric] get_truthy Let_def)
      qed
    qed
  qed
qed

text \<open>
  Claim C7. For every node \<open>n\<close> and criteria \<open>c\<close>, \<^verbatim>\<open>find(n, c, {})\<close>, with neither the
  \<^verbatim>\<open>recursive\<close> nor the \<^verbatim>\<open>array\<close> option, is the one-element list \<open>[n]\<close> when \<open>n\<close> matches
  \<open>c\<close> and the empty list otherwise.
\<close>

theorem find_js_no_options:
  "find_js n c (Obj []) = Inr (if match n c = Inr True then [n] else [])"
proof -
  obtain matched where m: "match n c = Inr matched"
    using match_returns by blast
  then show ?thesis
    by (subst find_js.simps) (cases n; simp)
qed

theorem find_js_no_options_witness:
  "find_js (Str ''x'') (Str ''x'') (Obj []) = Inr [Str ''x''] \<and>
   find_js (Arr [Str ''x'']) (Str ''x'') (Obj []) = Inr []"
proof -
  have "match (Str ''x'') (Str ''x'') = Inr True"
    and "match (Arr [Str ''x'']) (Str ''x'') = Inr False"
    by code_simp+
  then show ?thesis
    using find_js_no_options [of "Str ''x''" "Str ''x''"]
      find_js_no_options [of "Arr [Str ''x'']" "Str ''x''"]
    by simp
qed

subsection \<open>The call stack\<close>

lemma height_member: "x \<in> set xs \<Longrightarrow> f x \<le> foldr (\<lambda>x. max (f x)) xs (0::nat)"
  by (induction xs) auto

lemma height_value_at: "isObject node \<Longrightarrow> height (value_at node k) < height node"
proof (cases node)
  case (Arr xs)
  show ?thesis
  proof (cases k)
    case (Name n)
    with Arr show ?thesis by (simp add: value_at_def)
  next
    case (Index i)
    show ?thesis
    proof (cases "i < length xs")
      case True
      then have "xs ! i \<in> set xs" by simp
      from height_member [OF this, of height] Arr Index True show ?thesis
        by (simp add: value_at_def)
    next
      case False
      with Arr Index show ?thesis by (simp add: value_at_def)
    qed
  qed
next
  case (Obj kvs)
  show ?thesis
  proof (cases k)
    case (Index i)
    with Obj show ?thesis by (simp add: value_at_def)
  next
    case (Name n)
    show ?thesis
    proof (cases "map_of kvs n")
      case None
      with Obj Name show ?thesis by (simp add: value_at_def)
    next
      case (Some v)
      then have "(n, v) \<in> set kvs" by (rule map_of_SomeD)
      from height_member [OF this, of "\<lambda>kv. height (snd kv)"] Obj Name Some show ?thesis
        by (simp add: value_at_def)
    qed
  qed
qed simp_all

lemma match_stack_structural:
  assumes "isObject node" "isObject criteria"
  shows "match_stack (Suc room) node criteria =
    every (\<lambda>criteriaKey. some (\<lambda>nodeKey.
        match_stack room (value_at node nodeKey) (value_at criteria criteriaKey)) (keys_of node))
      (keys_of criteria)"
  using assms by (simp add: object_keys_isObject get_isObject)

lemma every_overflow:
  assumes "\<And>x. x \<in> set xs \<Longrightarrow> f x = g x \<or> f x = Inl Native_RangeError"
  shows "every f xs = every g xs \<or> every f xs = Inl Native_RangeError"
  using assms
proof (induction xs)
  case Nil
  then show ?case by simp
next
  case (Cons x xs)
  then have tail: "every f xs = every g xs \<or> every f xs = Inl Native_RangeError" by simp
  from Cons.prems have "f x = g x \<or> f x = Inl Native_RangeError" by simp
  then show ?case
  proof
    assume "f x = Inl Native_RangeError"
    then show ?thesis by simp
  next
    assume same: "f x = g x"
    show ?thesis
    proof (cases "g x")
      case (Inl e)
      with same show ?thesis by simp
    next
      case (Inr b)
      with same tail show ?thesis by (cases b) auto
    qed
  qed
qed

lemma some_overflow:
  assumes "\<And>x. x \<in> set xs \<Longrightarrow> f x = g x \<or> f x = Inl Native_RangeError"
  shows "some f xs = some g xs \<or> some f xs = Inl Native_RangeError"
  using assms
proof (induction xs)
  case Nil
  then show ?case by simp
next
  case (Cons x xs)
  then have tail: "some f xs = some g xs \<or> some f xs = Inl Native_RangeError" by simp
  from Cons.prems have "f x = g x \<or> f x = Inl Native_RangeError" by simp
  then show ?case
  proof
    assume "f x = Inl Native_RangeError"
    then show ?thesis by simp
  next
    assume same: "f x = g x"
    show ?thesis
    proof (cases "g x")
      case (Inl e)
      with same show ?thesis by simp
    next
      case (Inr b)
      with same tail show ?thesis by (cases b) auto
    qed
  qed
qed

lemma reduce_overflow:
  assumes "\<And>acc x. x \<in> set xs \<Longrightarrow> f acc x = g acc x \<or> f acc x = Inl Native_RangeError"
  shows "reduce f xs a = reduce g xs a \<or> reduce f xs a = Inl Native_RangeError"
  using assms
proof (induction xs arbitrary: a)
  case Nil
  then show ?case by simp
next
  case (Cons x xs)
  from Cons.prems have "f a x = g a x \<or> f a x = Inl Native_RangeError" by simp
  then show ?case
  proof
    assume "f a x = Inl Native_RangeError"
    then show ?thesis by simp
  next
    assume same: "f a x = g a x"
    show ?thesis
    proof (cases "g a x")
      case (Inl e)
      with same show ?thesis by simp
    next
      case (Inr a')
      have "reduce f xs a' = reduce g xs a' \<or> reduce f xs a' = Inl Native_RangeError"
        using Cons.prems by (intro Cons.IH) simp
      with same Inr show ?thesis by auto
    qed
  qed
qed

lemma match_stack_overflow:
  "match_stack room node criteria = match node criteria \<or>
   match_stack room node criteria = Inl Native_RangeError"
proof (induction room arbitrary: node criteria)
  case 0
  then show ?case by simp
next
  case (Suc room)
  show ?case
  proof (cases "isObject node \<and> isObject criteria")
    case False
    then show ?thesis by (subst match.simps) auto
  next
    case True
    have "some (\<lambda>nk. match_stack room (value_at node nk) (value_at criteria ck)) (keys_of node) =
        some (\<lambda>nk. match (value_at node nk) (value_at criteria ck)) (keys_of node) \<or>
        some (\<lambda>nk. match_stack room (value_at node nk) (value_at criteria ck)) (keys_of node) =
        Inl Native_RangeError" for ck
      by (rule some_overflow) (rule Suc.IH)
    then have "every (\<lambda>ck. some (\<lambda>nk.
            match_stack room (value_at node nk) (value_at criteria ck)) (keys_of node))
          (keys_of criteria) =
        every (\<lambda>ck. some (\<lambda>nk.
            match (value_at node nk) (value_at criteria ck)) (keys_of node))
          (keys_of criteria) \<or>
        every (\<lambda>ck. some (\<lambda>nk.
            match_stack room (value_at node nk) (value_at criteria ck)) (keys_of node))
          (keys_of criteria) = Inl Native_RangeError"
      by (intro every_overflow)
    with True show ?thesis
      by (simp only: match_stack_structural match_structural)
  qed
qed

lemma match_stack_enough:
  "min (height node) (height criteria) < room \<Longrightarrow>
   match_stack room node criteria = match node criteria"
proof (induction room arbitrary: node criteria)
  case 0
  then show ?case by simp
next
  case (Suc room)
  show ?case
  proof (cases "isObject node \<and> isObject criteria")
    case False
    then show ?thesis by (subst match.simps) auto
  next
    case True
    have "match_stack room (value_at node nk) (value_at criteria ck) =
        match (value_at node nk) (value_at criteria ck)" for nk ck
    proof (rule Suc.IH)
      from True have "height (value_at node nk) < height node"
        and "height (value_at criteria ck) < height criteria"
        by (simp_all add: height_value_at)
      with Suc.prems show "min (height (value_at node nk)) (height (value_at criteria ck)) < room"
        by simp
    qed
    with True show ?thesis
      by (simp only: match_stack_structural match_structural)
  qed
qed

lemma find_js_body:
  "find_js node criteria options0 =
     find_body (match node criteria)
       (\<lambda>child. find_js child criteria (if truthy options0 then options0 else Obj []))
       node (if truthy options0 then options0 else Obj [])"
proof -
  define options where "options = (if truthy options0 then options0 else Obj [])"
  have t: "truthy options" by (simp add: options_def)
  have keys: "reduce (\<lambda>results key.
        bindE (get node key) (\<lambda>child.
        bindE (find_js child criteria options) (\<lambda>found. Inr (results @ found))))
      (keys_of node) [] =
      reduce (\<lambda>results key.
        bindE (find_js (value_at node key) criteria options) (\<lambda>found. Inr (results @ found)))
      (keys_of node) []" if "isObject node"
    using that by (intro reduce_cong) (simp_all add: get_isObject)
  show ?thesis
  proof (cases "match node criteria")
    case (Inl e)
    then show ?thesis
      by (subst find_js.simps) (simp add: find_body_def Let_def)
  next
    case (Inr matched)
    then show ?thesis
      unfolding options_def [symmetric] find_body_def
      by (subst find_js.simps)
         (simp add: options_def [symmetric] Let_def t get_truthy object_keys_isObject keys
            cong: if_cong)
  qed
qed

lemma find_stack_body:
  "find_stack (Suc room) node criteria options0 =
     find_body (match_stack room node criteria)
       (\<lambda>child. find_stack room child criteria (if truthy options0 then options0 else Obj []))
       node (if truthy options0 then options0 else Obj [])"
proof -
  define options where "options = (if truthy options0 then options0 else Obj [])"
  have t: "truthy options" by (simp add: options_def)
  have keys: "reduce (\<lambda>results key.
        bindE (get node key) (\<lambda>child.
        bindE (find_stack room child criteria options) (\<lambda>found. Inr (results @ found))))
      (keys_of node) [] =
      reduce (\<lambda>results key.
        bindE (find_stack room (value_at node key) criteria options)
          (\<lambda>found. Inr (results @ found)))
      (keys_of node) []" if "isObject node"
    using that by (intro reduce_cong) (simp_all add: get_isObject)
  show ?thesis
  proof (cases "match_stack room node criteria")
    case (Inl e)
    then show ?thesis
      by (subst find_stack.simps) (simp add: find_body_def Let_def del: find_stack.simps)
  next
    case (Inr matched)
    then show ?thesis
      unfolding options_def [symmetric] find_body_def
      by (subst find_stack.simps)
         (simp add: options_def [symmetric] Let_def t get_truthy object_keys_isObject keys
            del: find_stack.simps cong: if_cong)
  qed
qed

lemma bindE_overflow:
  assumes "m = m' \<or> m = Inl Native_RangeError"
    and "\<And>x. f x = f' x \<or> f x = Inl Native_RangeError"
  shows "bindE m f = bindE m' f' \<or> bindE m f = Inl Native_RangeError"
proof -
  from assms(1) show ?thesis
  proof
    assume "m = Inl Native_RangeError"
    then show ?thesis by simp
  next
    assume "m = m'"
    then show ?thesis using assms(2) by (cases m') simp_all
  qed
qed

lemma find_body_overflow:
  assumes "matching = matching' \<or> matching = Inl Native_RangeError"
    and "\<And>child. search child = search' child \<or> search child = Inl Native_RangeError"
  shows "find_body matching search node options = find_body matching' search' node options \<or>
    find_body matching search node options = Inl Native_RangeError"
  unfolding find_body_def
proof (rule bindE_overflow [OF assms(1)], goal_cases)
  case (1 matched)
  have step: "bindE (search x) (\<lambda>found. Inr (results @ found)) =
      bindE (search' x) (\<lambda>found. Inr (results @ found)) \<or>
      bindE (search x) (\<lambda>found. Inr (results @ found)) = Inl Native_RangeError" for x results
    using assms(2) [of x] by auto
  have "reduce (\<lambda>results x. bindE (search (h x)) (\<lambda>found. Inr (results @ found))) xs [] =
      reduce (\<lambda>results x. bindE (search' (h x)) (\<lambda>found. Inr (results @ found))) xs [] \<or>
      reduce (\<lambda>results x. bindE (search (h x)) (\<lambda>found. Inr (results @ found))) xs [] =
      Inl Native_RangeError" for h :: "'a \<Rightarrow> jsval" and xs
    by (rule reduce_overflow) (rule step)
  from this [of "\<lambda>x. x"] this [of "value_at node"] show ?case by simp
qed

lemma find_body_same:
  assumes "matching = matching'"
    and "\<And>child. height child < height node \<Longrightarrow> search child = search' child"
  shows "find_body matching search node options = find_body matching' search' node options"
proof -
  have elements: "reduce (\<lambda>results property.
        bindE (search property) (\<lambda>found. Inr (results @ found))) (elements_of node) [] =
      reduce (\<lambda>results property.
        bindE (search' property) (\<lambda>found. Inr (results @ found))) (elements_of node) []"
  proof (rule reduce_cong [OF refl refl])
    fix acc x assume "x \<in> set (elements_of node)"
    then have "height x < height node"
      using height_member [of x _ height] by (cases node) (auto simp: less_Suc_eq_le)
    then show "bindE (search x) (\<lambda>found. Inr (acc @ found)) =
        bindE (search' x) (\<lambda>found. Inr (acc @ found))"
      by (simp add: assms(2))
  qed
  have keys: "reduce (\<lambda>results key.
        bindE (search (value_at node key)) (\<lambda>found. Inr (results @ found))) (keys_of node) [] =
      reduce (\<lambda>results key.
        bindE (search' (value_at node key)) (\<lambda>found. Inr (results @ found))) (keys_of node) []"
    if "isObject node"
    using that by (intro reduce_cong) (simp_all add: assms(2) height_value_at)
  show ?thesis
    unfolding find_body_def assms(1)
    by (simp add: elements keys cong: if_cong bindE_cong)
qed

lemma find_stack_overflow:
  "find_stack room node criteria options = find_js node criteria options \<or>
   find_stack room node criteria options = Inl Native_RangeError"
proof (induction room arbitrary: node options)
  case 0
  then show ?case by simp
next
  case (Suc room)
  show ?case
    by (simp only: find_stack_body, subst find_js_body)
       (rule find_body_overflow, rule match_stack_overflow, rule Suc.IH)
qed

lemma find_stack_enough:
  "height node + 2 \<le> room \<Longrightarrow>
   find_stack room node criteria options = find_js node criteria options"
proof (induction room arbitrary: node options)
  case 0
  then show ?case by simp
next
  case (Suc room)
  show ?case
  proof (subst find_stack_body, subst find_js_body, rule find_body_same)
    show "match_stack room node criteria = match node criteria"
      using Suc.prems by (intro match_stack_enough) simp
  next
    fix child assume "height child < height node"
    with Suc.prems show "find_stack room child criteria (if truthy options then options else Obj []) =
        find_js child criteria (if truthy options then options else Obj [])"
      by (intro Suc.IH) simp
  qed
qed

lemma match_stack_nest: "match_stack room (nest room) (nest room) = Inl Native_RangeError"
  by (induction room) simp_all

lemma match_stack_scalar_criteria:
  "match_stack room (Arr xs) (Str s) = (if room = 0 then Inl Native_RangeError else Inr False)"
  by (cases room) simp_all

lemma find_stack_nest:
  "find_stack room (nest room) (Str s) recursive_option = Inl Native_RangeError"
proof (induction room)
  case 0
  then show ?case by simp
next
  case (Suc room)
  have "find_stack (Suc room) (Arr [nest room]) (Str s) recursive_option =
      Inl Native_RangeError"
    unfolding find_stack_body find_body_def match_stack_scalar_criteria
    using Suc.IH
    by (simp add: recursive_option_def keys_of_def value_at_def del: find_stack.simps)
  then show ?case by (simp del: find_stack.simps)
qed




section \<open>Properties of the property extractor\<close>

lemma bindE_eq_Inr: "bindE m f = Inr y \<longleftrightarrow> (\<exists>x. m = Inr x \<and> f x = Inr y)"
  by (cases m) simp_all

lemma reduce_concat:
  assumes "\<And>x. x \<in> set xs \<Longrightarrow> f x = Inr (g x)"
  shows "reduce (\<lambda>results x. bindE (f x) (\<lambda>found. Inr (results @ found))) xs acc =
    Inr (acc @ concat (map g xs))"
  using assms by (induction xs arbitrary: acc) simp_all

lemma find_js_array_option_element:
  assumes "\<not> isArray x"
  shows "find_js x c array_option = Inr (if match x c = Inr True then [x] else [])"
proof -
  obtain matched where "match x c = Inr matched"
    using match_returns by blast
  with assms show ?thesis
    by (subst find_js.simps) (cases x; simp add: array_option_def)
qed

lemma find_js_array_option_array:
  assumes "match (Arr xs) c = Inr False" and "\<forall>x \<in> set xs. \<not> isArray x"
  shows "find_js (Arr xs) c array_option = Inr (filter (\<lambda>x. match x c = Inr True) xs)"
proof -
  have "reduce (\<lambda>results x. bindE (find_js x c array_option) (\<lambda>found. Inr (results @ found)))
      xs [] = Inr ([] @ concat (map (\<lambda>x. if match x c = Inr True then [x] else []) xs))"
    using assms(2) by (intro reduce_concat) (simp add: find_js_array_option_element)
  also have "concat (map (\<lambda>x. if match x c = Inr True then [x] else []) xs) =
      filter (\<lambda>x. match x c = Inr True) xs"
    by (induction xs) simp_all
  finally show ?thesis
    using assms(1) by (subst find_js.simps) (simp add: array_option_def)
qed

lemma some_match_returns: "\<exists>b. some (\<lambda>nk. match (f nk) v) ks = Inr b"
  using some_returns [of ks "\<lambda>nk. match (f nk) v"] match_returns by blast

lemma match_needs_scalar:
  assumes "isObject c" and "ck \<in> set (keys_of c)" and "\<not> isObject (value_at c ck)"
    and "\<forall>nk \<in> set (keys_of n). isObject (value_at n nk)"
  shows "match n c = Inr False"
proof (cases "isObject n")
  case False
  with assms(1) show ?thesis by (simp add: match_scalar strict_eq_structural)
next
  case True
  have "match (value_at n nk) (value_at c ck) = Inr False" if "nk \<in> set (keys_of n)" for nk
  proof -
    from that assms(4) have "isObject (value_at n nk)" by blast
    with assms(3) show ?thesis by (subst match.simps) simp
  qed
  then have "some (\<lambda>nk. match (value_at n nk) (value_at c ck)) (keys_of n) = Inr False"
    by (subst some_returns) (auto intro: match_returns)
  then have "every (\<lambda>ck. some (\<lambda>nk. match (value_at n nk) (value_at c ck)) (keys_of n))
      (keys_of c) = Inr False"
    using assms(2)
    by (subst every_returns) (force intro: some_match_returns)+
  with True assms(1) show ?thesis by (simp add: match_structural)
qed

lemma values_of_array: "nk \<in> set (keys_of (Arr xs)) \<Longrightarrow> value_at (Arr xs) nk \<in> set xs"
  by (auto simp: keys_of_def value_at_def)

lemma match_property_list:
  assumes "\<forall>p \<in> set ps. isObject p"
  shows "match (Arr ps) (property_criteria key) = Inr False"
proof (rule match_needs_scalar [where ck = "Name ''type''"])
  show "\<forall>nk \<in> set (keys_of (Arr ps)). isObject (value_at (Arr ps) nk)"
    using assms values_of_array by blast
qed (simp_all add: property_criteria_def keys_of_def value_at_def)

lemma find_js_properties:
  assumes "\<forall>p \<in> set ps. isObject p \<and> \<not> isArray p"
  shows "find_js (Arr ps) (property_criteria key) array_option = Inr (filter (is_property key) ps)"
  using assms find_js_array_option_array [OF match_property_list, of ps key]
  by (simp add: is_property_def [abs_def])

lemma is_property_truthy: "is_property key p \<Longrightarrow> truthy p"
proof -
  assume "is_property key p"
  then have "isObject p"
    unfolding is_property_def
    by (subst (asm) match.simps)
       (auto simp: property_criteria_def strict_eq_structural split: if_splits)
  then show ?thesis by (simp add: isObject_def)
qed

lemma is_property_accepted: "is_property key p \<longleftrightarrow> accepted_for key p"
proof -
  have inner: "match m (Obj [(''type'', Str ''Identifier''), (''name'', Str key)]) = Inr True \<longleftrightarrow>
      isObject m \<and> some_member (\<lambda>v. v = Str ''Identifier'') m \<and>
        some_member (\<lambda>v. v = Str key) m" for m
    by (subst match_object)
       (simp_all add: keys_of_def [of "Obj _"] value_at_def [of "Obj _"] match_Str some_member_def
          list_ex_iff)
  show ?thesis
    unfolding is_property_def property_criteria_def accepted_for_def
    by (subst match_object)
       (simp_all add: keys_of_def [of "Obj _"] value_at_def [of "Obj _"] match_Str inner
          some_member_def [of _ p] list_ex_iff)
qed

lemma value_at_member:
  "value_at p (Name n) = Str s \<Longrightarrow> some_member (\<lambda>v. v = Str s) p"
  "value_at p (Name n) = Str s \<Longrightarrow> isObject p"
proof -
  assume a: "value_at p (Name n) = Str s"
  then obtain kvs where p: "p = Obj kvs"
    by (cases p) (auto simp: value_at_def split: if_splits)
  with a obtain v where "map_of kvs n = Some v"
    by (cases "map_of kvs n") (auto simp: value_at_def)
  then have "(n, v) \<in> set kvs" by (rule map_of_SomeD)
  then have "Name n \<in> set (keys_of p)"
    using p by (force simp: keys_of_def)
  with a show "some_member (\<lambda>v. v = Str s) p"
    by (auto simp: some_member_def list_ex_iff)
  from p show "isObject p" by simp
qed

lemma value_at_object_member:
  assumes "isObject (value_at p (Name n))" and "P (value_at p (Name n))"
  shows "some_member P p"
proof -
  from assms(1) obtain kvs where p: "p = Obj kvs"
    by (cases p) (auto simp: value_at_def split: if_splits)
  with assms(1) obtain v where "map_of kvs n = Some v"
    by (cases "map_of kvs n") (auto simp: value_at_def)
  then have "(n, v) \<in> set kvs" by (rule map_of_SomeD)
  then have "Name n \<in> set (keys_of p)"
    using p by (force simp: keys_of_def)
  with assms(2) show ?thesis
    by (auto simp: some_member_def list_ex_iff)
qed

lemma keyed_property_accepted: "keyed_property key p \<Longrightarrow> accepted_for key p"
proof -
  assume k: "keyed_property key p"
  let ?key = "value_at p (Name ''key'')"
  from k have "isObject ?key" and "some_member (\<lambda>v. v = Str ''Identifier'') ?key"
    and "some_member (\<lambda>v. v = Str key) ?key"
    unfolding keyed_property_def by (blast intro: value_at_member)+
  then have "some_member (\<lambda>m. isObject m \<and>
         some_member (\<lambda>v. v = Str ''Identifier'') m \<and>
         some_member (\<lambda>v. v = Str key) m) p"
    by (intro value_at_object_member [where n = "''key''"]) simp_all
  with k show ?thesis
    unfolding keyed_property_def accepted_for_def by (blast intro: value_at_member)
qed

lemma findProperty_filter:
  assumes "get node (Name ''properties'') = Inr (Arr ps)"
    and "\<forall>p \<in> set ps. isObject p \<and> \<not> isArray p"
  shows "findProperty node key types filePath =
    (case filter (is_property key) ps of
       [] \<Rightarrow> Inr Undefined
     | p # rest \<Rightarrow>
         bindE (assertType (value_at p (Name ''value'')) types filePath) (\<lambda>_.
           Inr (value_at p (Name ''value''))))"
proof (cases "filter (is_property key) ps")
  case Nil
  with assms show ?thesis
    by (simp add: findProperty_def find_js_properties)
next
  case (Cons p rest)
  then have "p \<in> set (filter (is_property key) ps)" by simp
  then have "is_property key p" by simp
  then have "truthy p" by (rule is_property_truthy)
  with Cons assms show ?thesis
    by (simp add: findProperty_def find_js_properties get_truthy cong: bindE_cong)
qed

lemma findProperty_absent:
  assumes "get node (Name ''properties'') = Inr (Arr ps)"
    and "\<forall>p \<in> set ps. isObject p \<and> \<not> isArray p"
    and "\<forall>p \<in> set ps. \<not> is_property key p"
  shows "findProperty node key types filePath = Inr Undefined"
proof -
  have "filter (is_property key) ps = []"
    using assms(3) by (induction ps) simp_all
  with assms(1,2) show ?thesis
    by (simp add: findProperty_def find_js_properties)
qed

lemma filter_is_property: "filter (is_property key) ps = filter (accepted_for key) ps"
  by (rule filter_cong) (simp_all add: is_property_accepted)

lemma findProperty_accepted:
  assumes "get node (Name ''properties'') = Inr (Arr ps)"
    and "\<forall>p \<in> set ps. isObject p \<and> \<not> isArray p"
  shows "findProperty node key types filePath =
    (case filter (accepted_for key) ps of
       [] \<Rightarrow> Inr Undefined
     | p # rest \<Rightarrow>
         bindE (assertType (value_at p (Name ''value'')) types filePath) (\<lambda>_.
           Inr (value_at p (Name ''value''))))"
  using findProperty_filter [OF assms, of key types filePath]
  by (simp only: filter_is_property)

lemma findProperty_not_accepted:
  assumes "get node (Name ''properties'') = Inr (Arr ps)"
    and "\<forall>p \<in> set ps. isObject p \<and> \<not> isArray p"
    and "\<forall>p \<in> set ps. \<not> accepted_for key p"
  shows "findProperty node key types filePath = Inr Undefined"
  using assms by (intro findProperty_absent) (simp_all add: is_property_accepted)

text \<open>
  Claim C4, as amended. For an object-shaped node whose property list holds object nodes,
  the property extractor makes no check for duplicates: it takes the first node of the list
  that the matcher accepts for the requested name, asserts the kind of its value and, the
  assertion passed, returns the value; when the matcher accepts no node it returns
  \<^verbatim>\<open>undefined\<close> without error. The matcher ignores member names: it accepts a node with
  some member \<^verbatim>\<open>'Property'\<close>, some member \<^verbatim>\<open>'init'\<close> and some member that is an object or
  array with a member \<^verbatim>\<open>'Identifier'\<close> and a member equal to the name. That is every
  \<^verbatim>\<open>init\<close> property whose key is the identifier of the name, and also a property whose
  value is an identifier of the name, such as \<^verbatim>\<open>foo: path\<close> in a lookup of \<^verbatim>\<open>path\<close>.
\<close>

theorem findProperty_first:
  assumes "get node (Name ''properties'') = Inr (Arr ps)"
    and "\<forall>p \<in> set ps. isObject p \<and> \<not> isArray p"
  shows "findProperty node key types filePath =
      (case filter (accepted_for key) ps of
         [] \<Rightarrow> Inr Undefined
       | p # rest \<Rightarrow>
           bindE (assertType (value_at p (Name ''value'')) types filePath) (\<lambda>_.
             Inr (value_at p (Name ''value'')))) \<and>
    (keyed_property key q \<longrightarrow> accepted_for key q)"
  using findProperty_accepted [OF assms] keyed_property_accepted by blast

text \<open>
  Two properties keyed \<^verbatim>\<open>path\<close>: the extractor returns the value of the first and raises
  nothing.
\<close>

theorem findProperty_duplicate_counterexample:
  "length (filter (keyed_property ''path'')
      [Property_node 2 ''path'' (Literal_node 2 ''/a''),
       Property_node 3 ''path'' (Literal_node 3 ''/b'')]) = 2 \<and>
   findProperty
     (ObjectExpression_node 1
       [Property_node 2 ''path'' (Literal_node 2 ''/a''),
        Property_node 3 ''path'' (Literal_node 3 ''/b'')])
     ''path'' LITERAL_TYPES (Str ''routes/a.js'') = Inr (Literal_node 2 ''/a'')"
  by code_simp

theorem findProperty_first_witness:
  "findProperty
     (ObjectExpression_node 1
       [Property_node 2 ''method'' (Literal_node 2 ''GET''),
        Property_node 3 ''path'' (Literal_node 3 ''/a''),
        Property_node 4 ''path'' (Literal_node 4 ''/b'')])
     ''path'' LITERAL_TYPES (Str ''routes/a.js'') = Inr (Literal_node 3 ''/a'') \<and>
   findProperty
     (ObjectExpression_node 1 [Property_node 2 ''method'' (Literal_node 2 ''GET'')])
     ''path'' LITERAL_TYPES (Str ''routes/a.js'') = Inr Undefined \<and>
   accepted_for ''path'' (Property_node 3 ''path'' (Literal_node 3 ''/a'')) \<and>
   accepted_for ''path'' (Property_node 5 ''foo'' (Identifier_node 5 ''path''))"
proof -
  let ?m = "Property_node 2 ''method'' (Literal_node 2 ''GET'')"
  let ?a = "Property_node 3 ''path'' (Literal_node 3 ''/a'')"
  let ?b = "Property_node 4 ''path'' (Literal_node 4 ''/b'')"
  have props: "get (ObjectExpression_node 1 ps) (Name ''properties'') = Inr (Arr ps)" for ps
    by (simp add: ast_defs)
  have objects: "\<forall>p \<in> set [?m, ?a, ?b]. isObject p \<and> \<not> isArray p"
    "\<forall>p \<in> set [?m]. isObject p \<and> \<not> isArray p"
    by (simp_all add: ast_defs)
  have filtered: "filter (accepted_for ''path'') [?m, ?a, ?b] = [?a, ?b]"
    "filter (accepted_for ''path'') [?m] = []"
    by code_simp+
  have asserted: "assertType (value_at ?a (Name ''value'')) LITERAL_TYPES (Str ''routes/a.js'') = Inr ()"
    and "value_at ?a (Name ''value'') = Literal_node 3 ''/a''"
    and "keyed_property ''path'' ?a"
    and "accepted_for ''path'' (Property_node 5 ''foo'' (Identifier_node 5 ''path''))"
    by code_simp+
  then show ?thesis
    using findProperty_first [OF props objects(1), of "''path''" LITERAL_TYPES "Str ''routes/a.js''" ?a,
        unfolded filtered]
      findProperty_first [OF props objects(2), of "''path''" LITERAL_TYPES "Str ''routes/a.js''" ?a,
        unfolded filtered]
    by simp
qed

text \<open>
  \<^verbatim>\<open>{ foo: path, path: '/a' }\<close>: one property is keyed \<^verbatim>\<open>path\<close>, but \<^verbatim>\<open>foo: path\<close> comes first
  and is accepted for \<^verbatim>\<open>path\<close> as well, so the lookup of \<^verbatim>\<open>path\<close> fails on the identifier.
\<close>

lemma findProperty_any_key_example:
  "filter (keyed_property ''path'')
     [Property_node 2 ''foo'' (Identifier_node 2 ''path''),
      Property_node 3 ''path'' (Literal_node 3 ''/a'')] =
     [Property_node 3 ''path'' (Literal_node 3 ''/a'')] \<and>
   findProperty
     (ObjectExpression_node 1
       [Property_node 2 ''foo'' (Identifier_node 2 ''path''),
        Property_node 3 ''path'' (Literal_node 3 ''/a'')])
     ''path'' LITERAL_TYPES (Str ''routes/a.js'') =
   Inl (Diagnostic (Error_parsing_at_line (Str ''routes/a.js'') (Num (Finite 2))
     (Expected_type_found [''Literal''] (Str ''Identifier'') (Num (Finite 0)))))"
  by code_simp

section \<open>Properties of the assertions\<close>

lemma get_Str_truthy: "get v (Name n) = Inr (Str s) \<Longrightarrow> truthy v"
  by (cases v) (simp_all split: if_splits)

lemma assertType_has:
  assumes "get v (Name ''type'') = Inr (Str t)" and "t \<in> set types"
  shows "assertType v types filePath = Inr ()"
  using assms get_Str_truthy [OF assms(1)] by (simp add: assertType_def)

lemma assertType_has_not:
  assumes "get v (Name ''type'') = Inr (Str t)" and "t \<notin> set types"
  shows "\<exists>e. assertType v types filePath = Inl e"
proof -
  have "\<exists>e. bindE m (\<lambda>line. bindE m' (\<lambda>column. fail (msg column) filePath line)) = Inl e"
    for m m' :: "error + jsval" and msg
    by (cases m; cases m') (simp_all add: fail_def)
  with assms get_Str_truthy [OF assms(1)] show ?thesis
    by (simp add: assertType_def)
qed

section \<open>Properties of the route builder\<close>

text \<open>
  Claim C3. The claim wants a function body that is no block statement to be taken as
  the returned expression. The script instead asserts the type of \<^verbatim>\<open>returnedData\<close> before
  assigning it, so every such body ends in the error "Expected type [ReturnStatement],
  found nothing"; the example is \<^verbatim>\<open>module.exports = () => [ { method: 'GET', path: '/a',
  handler: function () {} } ]\<close>.
\<close>

theorem findReturnedData_expression_body:
  assumes "get functionNode (Name ''type'') = Inr functionType"
    and "\<not> strict_eq functionType (Str ''BlockStatement'')"
  shows "findReturnedData functionNode filePath =
    fail (Expected_type_found_nothing RETURN_TYPES) filePath Undefined"
  using assms by (simp add: findReturnedData_def assertType_def fail_def)

theorem findReturnedData_expression_body_witness:
  "findExportedFunction
     (Program_node [exports_statement 1 (ArrowFunction_node 1 (ArrayExpression_node 1
        [ObjectExpression_node 2
          [Property_node 2 ''method'' (Literal_node 2 ''GET''),
           Property_node 3 ''path'' (Literal_node 3 ''/a''),
           Property_node 4 ''handler'' (FunctionExpression_node 4)]]))])
     (Str ''routes/a.js'') =
   Inr (ArrayExpression_node 1
        [ObjectExpression_node 2
          [Property_node 2 ''method'' (Literal_node 2 ''GET''),
           Property_node 3 ''path'' (Literal_node 3 ''/a''),
           Property_node 4 ''handler'' (FunctionExpression_node 4)]]) \<and>
   findReturnedData
     (ArrayExpression_node 1
        [ObjectExpression_node 2
          [Property_node 2 ''method'' (Literal_node 2 ''GET''),
           Property_node 3 ''path'' (Literal_node 3 ''/a''),
           Property_node 4 ''handler'' (FunctionExpression_node 4)]])
     (Str ''routes/a.js'') =
   Inl (Diagnostic (Error_parsing (Str ''routes/a.js'')
     (Expected_type_found_nothing [''ReturnStatement''])))"
proof -
  let ?body = "ArrayExpression_node 1
        [ObjectExpression_node 2
          [Property_node 2 ''method'' (Literal_node 2 ''GET''),
           Property_node 3 ''path'' (Literal_node 3 ''/a''),
           Property_node 4 ''handler'' (FunctionExpression_node 4)]]"
  have exported: "findExportedFunction (Program_node [exports_statement 1 (ArrowFunction_node 1 ?body)])
      (Str ''routes/a.js'') = Inr ?body"
    by code_simp
  have "get ?body (Name ''type'') = Inr (Str ''ArrayExpression'')"
    and "\<not> strict_eq (Str ''ArrayExpression'') (Str ''BlockStatement'')"
    by (simp_all add: ast_defs)
  from findReturnedData_expression_body [OF this, of "Str ''routes/a.js''"] exported
  show ?thesis by (simp add: fail_def RETURN_TYPES_def)
qed

lemma findReturnedData_block:
  assumes "get functionNode (Name ''type'') = Inr (Str ''BlockStatement'')"
    and "get functionNode (Name ''body'') = Inr body"
    and "find_js body return_criteria array_option = Inr [returned]"
    and "get returned (Name ''argument'') = Inr returnedData"
  shows "findReturnedData functionNode filePath =
    bindE (get returnedData (Name ''type'')) (\<lambda>returnedType.
    bindE
      (if strict_eq returnedType (Str ''Identifier'') then
         bindE (get returnedData (Name ''name'')) (\<lambda>name.
         bindE (find_js functionNode (declarator_criteria name) recursive_option)
           (\<lambda>routeDefinitions.
           if length routeDefinitions \<noteq> 1
           then fail (Expected_route_definitions (length routeDefinitions)) filePath Undefined
           else get (routeDefinitions ! 0) (Name ''init'')))
       else Inr returnedData)
      (\<lambda>returnedData.
    bindE (assertType returnedData ARRAY_TYPES filePath) (\<lambda>_.
      get returnedData (Name ''elements''))))"
  using assms by (simp add: findReturnedData_def)

lemma findReturnedData_array:
  assumes "get functionNode (Name ''type'') = Inr (Str ''BlockStatement'')"
    and "get functionNode (Name ''body'') = Inr body"
    and "find_js body return_criteria array_option = Inr [returned]"
    and "get returned (Name ''argument'') = Inr array"
    and "get array (Name ''type'') = Inr (Str ''ArrayExpression'')"
  shows "findReturnedData functionNode filePath = get array (Name ''elements'')"
proof -
  have "assertType array ARRAY_TYPES filePath = Inr ()"
    using assms(5) by (rule assertType_has) (simp add: ARRAY_TYPES_def)
  with assms(5) show ?thesis
    by (simp add: findReturnedData_block [OF assms(1-4)])
qed

text \<open>
  Claim C5, as amended. Take a block whose one top-level return statement returns an
  identifier, and for which the recursive search of the matcher for a declarator of that
  name finds exactly one node, whose initializer is an array literal. Then the block yields
  the elements of that array literal, and so does every block whose one top-level return
  statement returns that array literal itself: the route nodes and the route descriptors of
  the two are the same.
\<close>

theorem findReturnedData_by_name:
  assumes "get functionNode (Name ''type'') = Inr (Str ''BlockStatement'')"
    and "get functionNode (Name ''body'') = Inr body"
    and "find_js body return_criteria array_option = Inr [returned]"
    and "get returned (Name ''argument'') = Inr reference"
    and "get reference (Name ''type'') = Inr (Str ''Identifier'')"
    and "get reference (Name ''name'') = Inr name"
    and "find_js functionNode (declarator_criteria name) recursive_option = Inr [declarator]"
    and "get declarator (Name ''init'') = Inr array"
    and "get array (Name ''type'') = Inr (Str ''ArrayExpression'')"
    and "get inlined (Name ''type'') = Inr (Str ''BlockStatement'')"
    and "get inlined (Name ''body'') = Inr body'"
    and "find_js body' return_criteria array_option = Inr [returned']"
    and "get returned' (Name ''argument'') = Inr array"
  shows "findReturnedData functionNode filePath = get array (Name ''elements'') \<and>
    findReturnedData inlined filePath = findReturnedData functionNode filePath \<and>
    extractRoutes ns inlined filePath = extractRoutes ns functionNode filePath"
proof -
  have "assertType array ARRAY_TYPES filePath = Inr ()"
    using assms(9) by (rule assertType_has) (simp add: ARRAY_TYPES_def)
  then have named: "findReturnedData functionNode filePath = get array (Name ''elements'')"
    using assms(5-9) by (simp add: findReturnedData_block [OF assms(1-4)])
  have "findReturnedData inlined filePath = get array (Name ''elements'')"
    using assms(10-13) assms(9) by (rule findReturnedData_array)
  with named show ?thesis by (simp add: extractRoutes_def)
qed

theorem findReturnedData_by_name_witness:
  "findReturnedData
     (BlockStatement_node 1
       [VariableDeclaration_node 2
          [VariableDeclarator_node 2 ''routes'' (ArrayExpression_node 2 [ObjectExpression_node 2 []])],
        ReturnStatement_node 3 (Identifier_node 3 ''routes'')])
     (Str ''routes/a.js'') = Inr (Arr [ObjectExpression_node 2 []]) \<and>
   findReturnedData
     (BlockStatement_node 1
       [ReturnStatement_node 2 (ArrayExpression_node 2 [ObjectExpression_node 2 []])])
     (Str ''routes/a.js'') = Inr (Arr [ObjectExpression_node 2 []])"
proof -
  let ?array = "ArrayExpression_node 2 [ObjectExpression_node 2 []]"
  let ?declarator = "VariableDeclarator_node 2 ''routes'' ?array"
  let ?reference = "Identifier_node 3 ''routes''"
  let ?returned = "ReturnStatement_node 3 ?reference"
  let ?body = "Arr [VariableDeclaration_node 2 [?declarator], ?returned]"
  let ?functionNode = "BlockStatement_node 1 [VariableDeclaration_node 2 [?declarator], ?returned]"
  let ?returned' = "ReturnStatement_node 2 ?array"
  let ?inlined = "BlockStatement_node 1 [?returned']"
  have h: "get ?functionNode (Name ''type'') = Inr (Str ''BlockStatement'')"
    "get ?functionNode (Name ''body'') = Inr ?body"
    "find_js ?body return_criteria array_option = Inr [?returned]"
    "get ?returned (Name ''argument'') = Inr ?reference"
    "get ?reference (Name ''type'') = Inr (Str ''Identifier'')"
    "get ?reference (Name ''name'') = Inr (Str ''routes'')"
    "find_js ?functionNode (declarator_criteria (Str ''routes'')) recursive_option = Inr [?declarator]"
    "get ?declarator (Name ''init'') = Inr ?array"
    "get ?array (Name ''type'') = Inr (Str ''ArrayExpression'')"
    "get ?inlined (Name ''type'') = Inr (Str ''BlockStatement'')"
    "get ?inlined (Name ''body'') = Inr (Arr [?returned'])"
    "find_js (Arr [?returned']) return_criteria array_option = Inr [?returned']"
    "get ?returned' (Name ''argument'') = Inr ?array"
    by code_simp+
  have "get ?array (Name ''elements'') = Inr (Arr [ObjectExpression_node 2 []])"
    by code_simp
  with findReturnedData_by_name [OF h, of "Str ''routes/a.js''" "\<lambda>n. []"]
  show ?thesis by simp
qed

text \<open>
  \<^verbatim>\<open>const routes = [{}]; const alias = routes; return routes\<close> declares \<^verbatim>\<open>routes\<close> once, but
  the matcher is blind to member names and also accepts the declarator of \<^verbatim>\<open>alias\<close>, whose
  initializer is the identifier \<^verbatim>\<open>routes\<close>: two definitions are found and the extraction
  fails, while the same block with the array literal in the return statement succeeds.
\<close>

theorem findReturnedData_alias_counterexample:
  "filter (\<lambda>d. dots d [''id'', ''name''] = Inr (Str ''routes''))
     [VariableDeclarator_node 2 ''routes'' (ArrayExpression_node 2 [ObjectExpression_node 2 []]),
      VariableDeclarator_node 3 ''alias'' (Identifier_node 3 ''routes'')] =
     [VariableDeclarator_node 2 ''routes'' (ArrayExpression_node 2 [ObjectExpression_node 2 []])] \<and>
   findReturnedData
     (BlockStatement_node 1
       [VariableDeclaration_node 2
          [VariableDeclarator_node 2 ''routes'' (ArrayExpression_node 2 [ObjectExpression_node 2 []])],
        VariableDeclaration_node 3
          [VariableDeclarator_node 3 ''alias'' (Identifier_node 3 ''routes'')],
        ReturnStatement_node 4 (Identifier_node 4 ''routes'')])
     (Str ''routes/a.js'') =
   Inl (Diagnostic (Error_parsing (Str ''routes/a.js'') (Expected_route_definitions 2))) \<and>
   findReturnedData
     (BlockStatement_node 1
       [VariableDeclaration_node 2
          [VariableDeclarator_node 2 ''routes'' (ArrayExpression_node 2 [ObjectExpression_node 2 []])],
        VariableDeclaration_node 3
          [VariableDeclarator_node 3 ''alias'' (Identifier_node 3 ''routes'')],
        ReturnStatement_node 4 (ArrayExpression_node 4 [ObjectExpression_node 2 []])])
     (Str ''routes/a.js'') = Inr (Arr [ObjectExpression_node 2 []])"
  by code_simp

section \<open>Properties of the handler lookup\<close>

lemma extractRoute_split:
  "extractRoute ns route filePath =
     bindE (lookups_before_handler ns route filePath)
       (\<lambda>(method, path, authentication, validation, response).
     bindE (findRouteHandler route filePath) (\<lambda>handler.
       Inr \<lparr>routeMethod = method, routePath = path, routeAuthentication = authentication,
            routeValidation = validation, routeResponse = response,
            routeHandler = handler\<rparr>))"
  unfolding extractRoute_def lookups_before_handler_def
  by (simp add: bindE_def split: sum.splits prod.splits)

text \<open>
  Claim C10, as amended. Take a route node whose property list holds object nodes, none of
  which the matcher accepts for \<^verbatim>\<open>handler\<close> (that is more than having no property keyed
  \<^verbatim>\<open>handler\<close>: \<^verbatim>\<open>notes: handler\<close> is accepted too). The handler lookup reads \<^verbatim>\<open>.value\<close> of
  the missing result, the \<^verbatim>\<open>catch\<close> block reads \<^verbatim>\<open>.name\<close> of the missing result again, and
  that second engine \<^verbatim>\<open>TypeError\<close> leaves the function: the lookup ends in an unstructured
  error. The extraction of such a route never ends in a descriptor: it ends in that
  unstructured error when the lookups before the handler lookup have passed, and in the
  error of those lookups when they fail.
\<close>

theorem findRouteHandler_without_handler:
  assumes "get route (Name ''properties'') = Inr (Arr ps)"
    and "\<forall>p \<in> set ps. isObject p \<and> \<not> isArray p"
    and "\<forall>p \<in> set ps. \<not> accepted_for ''handler'' p"
  shows "findRouteHandler route filePath = Inl Native_TypeError \<and>
    (\<exists>e. extractRoute ns route filePath = Inl e) \<and>
    (lookups_before_handler ns route filePath = Inr found \<longrightarrow>
       extractRoute ns route filePath = Inl Native_TypeError) \<and>
    (lookups_before_handler ns route filePath = Inl e \<longrightarrow>
       extractRoute ns route filePath = Inl e)"
proof (intro conjI impI)
  show "extractRoute ns route filePath = Inl e"
    if "lookups_before_handler ns route filePath = Inl e"
    using that by (simp add: extractRoute_split)
  show handler: "findRouteHandler route filePath = Inl Native_TypeError"
    by (simp add: findRouteHandler_def findProperty_not_accepted [OF assms])
  then show "\<exists>e. extractRoute ns route filePath = Inl e"
    by (cases "lookups_before_handler ns route filePath")
       (simp_all add: extractRoute_split split: prod.splits)
  show "extractRoute ns route filePath = Inl Native_TypeError"
    if "lookups_before_handler ns route filePath = Inr found"
    using that handler by (simp add: extractRoute_split split: prod.splits)
qed

theorem findRouteHandler_without_handler_witness:
  "findRouteHandler
     (ObjectExpression_node 2
        [Property_node 2 ''method'' (Literal_node 2 ''GET''),
         Property_node 3 ''path'' (Literal_node 3 ''/a'')])
     (Str ''routes/a.js'') = Inl Native_TypeError \<and>
   extractRoute (\<lambda>n. [])
     (ObjectExpression_node 2
        [Property_node 2 ''method'' (Literal_node 2 ''GET''),
         Property_node 3 ''path'' (Literal_node 3 ''/a'')])
     (Str ''routes/a.js'') = Inl Native_TypeError"
proof -
  let ?ps = "[Property_node 2 ''method'' (Literal_node 2 ''GET''),
         Property_node 3 ''path'' (Literal_node 3 ''/a'')]"
  have props: "get (ObjectExpression_node 2 ?ps) (Name ''properties'') = Inr (Arr ?ps)"
    by (simp add: ast_defs)
  have objects: "\<forall>p \<in> set ?ps. isObject p \<and> \<not> isArray p"
    by (simp add: ast_defs)
  have none: "\<forall>p \<in> set ?ps. \<not> accepted_for ''handler'' p"
    by code_simp
  have "lookups_before_handler (\<lambda>n. []) (ObjectExpression_node 2 ?ps) (Str ''routes/a.js'') =
      Inr (Str ''GET'', Str ''/a'', Undefined, Undefined, Undefined)"
    by code_simp
  with findRouteHandler_without_handler [OF props objects none, of "Str ''routes/a.js''"
      "\<lambda>n. []" "(Str ''GET'', Str ''/a'', Undefined, Undefined, Undefined)"]
  show ?thesis by simp
qed

text \<open>
  \<^verbatim>\<open>{ method: 'GET', path: '/a', notes: handler }\<close> has no property keyed \<^verbatim>\<open>handler\<close>, yet
  the matcher accepts \<^verbatim>\<open>notes: handler\<close>: the \<^verbatim>\<open>try\<close> block fails on the identifier, the
  \<^verbatim>\<open>catch\<close> block succeeds, and the route yields a descriptor with an absent handler.
\<close>

theorem findRouteHandler_notes_counterexample:
  "filter (keyed_property ''handler'')
     [Property_node 2 ''method'' (Literal_node 2 ''GET''),
      Property_node 3 ''path'' (Literal_node 3 ''/a''),
      Property_node 4 ''notes'' (Identifier_node 4 ''handler'')] = [] \<and>
   extractRoute (\<lambda>n. [])
     (ObjectExpression_node 2
        [Property_node 2 ''method'' (Literal_node 2 ''GET''),
         Property_node 3 ''path'' (Literal_node 3 ''/a''),
         Property_node 4 ''notes'' (Identifier_node 4 ''handler'')])
     (Str ''routes/a.js'') =
   Inr \<lparr>routeMethod = Str ''GET'', routePath = Str ''/a'', routeAuthentication = Undefined,
        routeValidation = Undefined, routeResponse = Undefined, routeHandler = Undefined\<rparr>"
  by code_simp

text \<open>
  Claim C8. When the \<^verbatim>\<open>handler\<close> property holds an identifier, the handler of the route is
  absent, as the claim says. When it holds a function literal, the script returns the
  \<^verbatim>\<open>value\<close> member of the function node and not the node; a function node of acorn has no
  such member, so the handler of \<^verbatim>\<open>handler: function () {}\<close> is absent too, where the claim
  has an inline function literal yield a present handler.
\<close>

theorem findRouteHandler_result:
  assumes "get route (Name ''properties'') = Inr (Arr ps)"
    and "\<forall>p \<in> set ps. isObject p \<and> \<not> isArray p"
    and "filter (is_property ''handler'') ps = p # rest"
    and "get (value_at p (Name ''value'')) (Name ''type'') = Inr (Str t)"
  shows "(t \<in> set IDENTIFIER_TYPES \<longrightarrow> findRouteHandler route filePath = Inr Undefined) \<and>
    (t \<in> set FUNCTION_EXPRESSION_TYPES \<longrightarrow>
       findRouteHandler route filePath =
         Inr (value_at (value_at p (Name ''value'')) (Name ''value'')))"
proof (intro conjI impI)
  let ?v = "value_at p (Name ''value'')"
  have found: "findProperty route ''handler'' types filePath =
      bindE (assertType ?v types filePath) (\<lambda>_. Inr ?v)" for types
    using findProperty_filter [OF assms(1,2), of "''handler''" types filePath] assms(3) by simp
  have v: "truthy ?v" using assms(4) by (rule get_Str_truthy)
  {
    assume "t \<in> set IDENTIFIER_TYPES"
    then have t: "t = ''Identifier''" by (simp add: IDENTIFIER_TYPES_def)
    then have "t \<notin> set FUNCTION_EXPRESSION_TYPES" by (simp add: FUNCTION_EXPRESSION_TYPES_def)
    from assertType_has_not [OF assms(4) this]
    obtain e where "assertType ?v FUNCTION_EXPRESSION_TYPES filePath = Inl e" by blast
    moreover have "assertType ?v IDENTIFIER_TYPES filePath = Inr ()"
      using assms(4) t by (intro assertType_has) (simp_all add: IDENTIFIER_TYPES_def)
    ultimately show "findRouteHandler route filePath = Inr Undefined"
      using v by (simp add: findRouteHandler_def found get_truthy)
  }
  {
    assume "t \<in> set FUNCTION_EXPRESSION_TYPES"
    with assms(4) have "assertType ?v FUNCTION_EXPRESSION_TYPES filePath = Inr ()"
      by (rule assertType_has)
    then show "findRouteHandler route filePath = Inr (value_at ?v (Name ''value''))"
      using v by (simp add: findRouteHandler_def found get_truthy)
  }
qed

theorem findRouteHandler_result_witness:
  "findRouteHandler
     (ObjectExpression_node 2
        [Property_node 2 ''method'' (Literal_node 2 ''GET''),
         Property_node 3 ''path'' (Literal_node 3 ''/a''),
         Property_node 4 ''handler'' (FunctionExpression_node 4)])
     (Str ''routes/a.js'') = Inr Undefined \<and>
   findRouteHandler
     (ObjectExpression_node 2
        [Property_node 2 ''method'' (Literal_node 2 ''GET''),
         Property_node 3 ''path'' (Literal_node 3 ''/a''),
         Property_node 4 ''handler'' (Identifier_node 4 ''getStatus'')])
     (Str ''routes/a.js'') = Inr Undefined"
proof -
  let ?m = "Property_node 2 ''method'' (Literal_node 2 ''GET'')"
  let ?p = "Property_node 3 ''path'' (Literal_node 3 ''/a'')"
  let ?f = "Property_node 4 ''handler'' (FunctionExpression_node 4)"
  let ?i = "Property_node 4 ''handler'' (Identifier_node 4 ''getStatus'')"
  have props: "get (ObjectExpression_node 2 ps) (Name ''properties'') = Inr (Arr ps)" for ps
    by (simp add: ast_defs)
  have objects: "\<forall>p \<in> set [?m, ?p, ?f]. isObject p \<and> \<not> isArray p"
    "\<forall>p \<in> set [?m, ?p, ?i]. isObject p \<and> \<not> isArray p"
    by (simp_all add: ast_defs)
  have filtered: "filter (is_property ''handler'') [?m, ?p, ?f] = ?f # []"
    "filter (is_property ''handler'') [?m, ?p, ?i] = ?i # []"
    by code_simp+
  have types: "get (value_at ?f (Name ''value'')) (Name ''type'') = Inr (Str ''FunctionExpression'')"
    "get (value_at ?i (Name ''value'')) (Name ''type'') = Inr (Str ''Identifier'')"
    by code_simp+
  have "value_at (value_at ?f (Name ''value'')) (Name ''value'') = Undefined"
    by code_simp
  then show ?thesis
    using findRouteHandler_result [OF props objects(1) filtered(1) types(1), of "Str ''routes/a.js''"]
      findRouteHandler_result [OF props objects(2) filtered(2) types(2), of "Str ''routes/a.js''"]
    by (simp add: IDENTIFIER_TYPES_def FUNCTION_EXPRESSION_TYPES_def)
qed

section \<open>Properties of the authentication normalizer\<close>

lemma set_first_occurrences: "set (first_occurrences xs) = set xs"
  by (induction xs rule: first_occurrences.induct) auto

lemma distinct_first_occurrences: "distinct (first_occurrences xs)"
  by (induction xs rule: first_occurrences.induct) (auto simp: set_first_occurrences)

lemma marshallStrategy_Str: "marshallStrategy ns (Str s) = Str (canonical_strategy s)"
  by (simp add: marshallStrategy_def canonical_strategy_def SESSION_TOKEN_STRATEGY_def
      KEY_FETCH_TOKEN_STRATEGY_def)

lemma indexOf_lower: "- 1 \<le> indexOf xs v"
  by (induction xs) (simp_all add: Let_def)

lemma indexOf_absent: "indexOf xs v = - 1 \<longleftrightarrow> (\<forall>x \<in> set xs. \<not> strict_eq x v)"
proof (induction xs)
  case Nil
  then show ?case by simp
next
  case (Cons x xs)
  then show ?case using indexOf_lower [of xs v] by (auto simp: Let_def)
qed

lemma dedupe_Str:
  "dedupe (map Str ys) (Str x) = map Str (if x \<in> set ys then ys else ys @ [x])"
  by (auto simp: dedupe_def indexOf_absent)

lemma foldl_dedupe_Str:
  "distinct ys \<Longrightarrow> foldl dedupe (map Str ys) (map Str xs) =
    map Str (ys @ first_occurrences (filter (\<lambda>x. x \<notin> set ys) xs))"
proof (induction xs arbitrary: ys)
  case Nil
  then show ?case by simp
next
  case (Cons x xs)
  show ?case
  proof (cases "x \<in> set ys")
    case True
    with Cons show ?thesis by (simp add: dedupe_Str)
  next
    case False
    have "filter (\<lambda>y. y \<noteq> x) (filter (\<lambda>x. x \<notin> set ys) xs) =
        filter (\<lambda>z. z \<notin> set (ys @ [x])) xs"
      by (induction xs) auto
    with False Cons.prems Cons.IH [of "ys @ [x]"] show ?thesis
      by (simp add: dedupe_Str)
  qed
qed

lemma foldl_dedupe_names: "foldl dedupe [] (map Str xs) = map Str (first_occurrences xs)"
  using foldl_dedupe_Str [of "[]" xs] by simp

lemma join_Str: "join ns sep (map Str xs) = join_strings sep xs"
  by (simp add: join_def comp_def)

lemma mapE_returns:
  assumes "\<And>x. x \<in> set xs \<Longrightarrow> f x = Inr (g x)"
  shows "mapE f xs = Inr (map g xs)"
  using assms by (induction xs) simp_all

lemma get_Arr_truthy: "get v (Name n) = Inr (Arr xs) \<Longrightarrow> truthy v"
  by (cases v) (simp_all split: if_splits)

text \<open>
  Claim C2. For an \<^verbatim>\<open>auth\<close> node with a \<^verbatim>\<open>mode\<close> and a \<^verbatim>\<open>strategies\<close> array of string
  literals, the normalizer returns the object \<^verbatim>\<open>{ optional, type }\<close>: \<^verbatim>\<open>optional\<close> is true
  exactly for a mode literal \<^verbatim>\<open>'try'\<close> or \<^verbatim>\<open>'optional'\<close>; \<^verbatim>\<open>type\<close> is the names, each
  collapsed to its canonical token, deduplicated in the order of first occurrence and
  joined with \<^verbatim>\<open>', '\<close>. For mode \<^verbatim>\<open>'optional'\<close> and strategies \<^verbatim>\<open>['sessionTokenA',
  'sessionTokenB']\<close> that is \<^verbatim>\<open>{ optional: true, type: 'sessionToken' }\<close>.
\<close>

theorem findRouteAuthentication_strategies:
  assumes "findProperty routeConfig ''auth'' OBJECT_TYPES filePath = Inr auth"
    and "truthy auth"
    and "findProperty auth ''mode'' LITERAL_TYPES filePath = Inr mode"
    and "findProperty auth ''strategies'' ARRAY_TYPES filePath = Inr strategies"
    and "get strategies (Name ''elements'') = Inr (Arr elements)"
    and "\<forall>e \<in> set elements. get e (Name ''type'') = Inr (Str ''Literal'')"
    and "map (\<lambda>e. value_at e (Name ''value'')) elements = map Str names"
    and "join_strings '', '' (first_occurrences (map canonical_strategy names)) \<noteq> []"
  shows "findRouteAuthentication ns routeConfig filePath =
    Inr (Obj [(''optional'',
               Bool (truthy mode \<and>
                 (value_at mode (Name ''value'') = Str ''try'' \<or>
                  value_at mode (Name ''value'') = Str ''optional''))),
              (''type'',
               Str (join_strings '', '' (first_occurrences (map canonical_strategy names))))])"
proof -
  have s: "truthy strategies" using assms(5) by (rule get_Arr_truthy)
  have "mapE (\<lambda>strategy.
        bindE (assertType strategy LITERAL_TYPES filePath) (\<lambda>_.
        bindE (get strategy (Name ''value'')) (\<lambda>strategyValue.
          Inr (marshallStrategy ns strategyValue)))) elements =
      Inr (map (\<lambda>e. marshallStrategy ns (value_at e (Name ''value''))) elements)"
  proof (rule mapE_returns)
    fix e assume "e \<in> set elements"
    with assms(6) have t: "get e (Name ''type'') = Inr (Str ''Literal'')" by blast
    then have "assertType e LITERAL_TYPES filePath = Inr ()"
      by (rule assertType_has) (simp add: LITERAL_TYPES_def)
    with get_Str_truthy [OF t]
    show "bindE (assertType e LITERAL_TYPES filePath) (\<lambda>_.
        bindE (get e (Name ''value'')) (\<lambda>strategyValue.
          Inr (marshallStrategy ns strategyValue))) =
        Inr (marshallStrategy ns (value_at e (Name ''value'')))"
      by (simp add: get_truthy)
  qed
  moreover have "map (\<lambda>e. marshallStrategy ns (value_at e (Name ''value''))) elements =
      map Str (map canonical_strategy names)"
  proof -
    have "map (\<lambda>e. marshallStrategy ns (value_at e (Name ''value''))) elements =
        map (marshallStrategy ns) (map (\<lambda>e. value_at e (Name ''value'')) elements)"
      by simp
    also have "\<dots> = map Str (map canonical_strategy names)"
      unfolding assms(7) by (simp add: marshallStrategy_Str)
    finally show ?thesis .
  qed
  ultimately have type: "mapE (\<lambda>strategy.
        bindE (assertType strategy LITERAL_TYPES filePath) (\<lambda>_.
        bindE (get strategy (Name ''value'')) (\<lambda>strategyValue.
          Inr (marshallStrategy ns strategyValue)))) elements =
      Inr (map Str (map canonical_strategy names))"
    by simp
  have optional: "(if truthy mode then
        bindE (get mode (Name ''value'')) (\<lambda>modeValue.
          Inr (strict_eq modeValue (Str ''try'') \<or> strict_eq modeValue (Str ''optional'')))
      else Inr False) =
      Inr (truthy mode \<and>
        (value_at mode (Name ''value'') = Str ''try'' \<or>
         value_at mode (Name ''value'') = Str ''optional''))"
  proof (cases "truthy mode")
    case True
    have "strict_eq v (Str t) \<longleftrightarrow> v = Str t" for v t
      by (cases v) auto
    with True show ?thesis by (simp add: get_truthy)
  next
    case False
    then show ?thesis by simp
  qed
  show ?thesis
    unfolding findRouteAuthentication_def
    using assms(2,8) s
    by (simp add: assms(1,3,4,5) optional type foldl_dedupe_names join_Str del: map_map)
qed

theorem findRouteAuthentication_strategies_witness:
  "findRouteAuthentication (\<lambda>n. [])
     (ObjectExpression_node 3
       [Property_node 3 ''auth'' (ObjectExpression_node 3
          [Property_node 4 ''mode'' (Literal_node 4 ''optional''),
           Property_node 5 ''strategies'' (ArrayExpression_node 5
             [Literal_node 5 ''sessionTokenA'', Literal_node 5 ''sessionTokenB''])])])
     (Str ''routes/a.js'') =
   Inr (Obj [(''optional'', Bool True), (''type'', Str ''sessionToken'')])"
proof -
  let ?elements = "[Literal_node 5 ''sessionTokenA'', Literal_node 5 ''sessionTokenB'']"
  let ?strategies = "ArrayExpression_node 5 ?elements"
  let ?mode = "Literal_node 4 ''optional''"
  let ?auth = "ObjectExpression_node 3
          [Property_node 4 ''mode'' ?mode, Property_node 5 ''strategies'' ?strategies]"
  let ?config = "ObjectExpression_node 3 [Property_node 3 ''auth'' ?auth]"
  let ?file = "Str ''routes/a.js''"
  have auth: "findProperty ?config ''auth'' OBJECT_TYPES ?file = Inr ?auth"
    and t: "truthy ?auth"
    and mode: "findProperty ?auth ''mode'' LITERAL_TYPES ?file = Inr ?mode"
    and strategies: "findProperty ?auth ''strategies'' ARRAY_TYPES ?file = Inr ?strategies"
    and elements: "get ?strategies (Name ''elements'') = Inr (Arr ?elements)"
    and literals: "\<forall>e \<in> set ?elements. get e (Name ''type'') = Inr (Str ''Literal'')"
    and names: "map (\<lambda>e. value_at e (Name ''value'')) ?elements =
        map Str [''sessionTokenA'', ''sessionTokenB'']"
    and display: "join_strings '', ''
        (first_occurrences (map canonical_strategy [''sessionTokenA'', ''sessionTokenB''])) =
        ''sessionToken''"
    and optional: "truthy ?mode" "value_at ?mode (Name ''value'') = Str ''optional''"
    by code_simp+
  have nonempty: "join_strings '', ''
        (first_occurrences (map canonical_strategy [''sessionTokenA'', ''sessionTokenB''])) \<noteq> []"
    unfolding display by simp
  show ?thesis
    using findRouteAuthentication_strategies
      [OF auth t mode strategies elements literals names nonempty, of "\<lambda>n. []"]
    unfolding display using optional by simp
qed

lemma findRouteAuthentication_fails:
  assumes "findProperty routeConfig ''auth'' OBJECT_TYPES filePath = Inr auth"
    and "truthy auth"
    and "findProperty auth ''strategies'' ARRAY_TYPES filePath = Inr Undefined"
    and "findProperty auth ''strategy'' LITERAL_TYPES filePath = Inr Undefined"
  shows "findRouteAuthentication ns routeConfig filePath =
    bindE (findProperty auth ''mode'' LITERAL_TYPES filePath) (\<lambda>mode.
    bindE (dots auth [''loc'', ''start'', ''line'']) (\<lambda>line.
      fail Missing_authentication_strategy filePath line))"
proof (cases "findProperty auth ''mode'' LITERAL_TYPES filePath")
  case (Inl e)
  with assms show ?thesis by (simp add: findRouteAuthentication_def)
next
  case (Inr mode)
  with assms show ?thesis
    by (cases "truthy mode") (simp_all add: findRouteAuthentication_def get_truthy)
qed

lemma findProperty_found:
  assumes "get node (Name ''properties'') = Inr (Arr ps)"
    and "\<forall>p \<in> set ps. isObject p \<and> \<not> isArray p"
    and "filter (accepted_for key) ps = p # rest"
    and "get (value_at p (Name ''value'')) (Name ''type'') = Inr (Str t)"
    and "t \<in> set types"
  shows "findProperty node key types filePath = Inr (value_at p (Name ''value''))"
  using findProperty_accepted [OF assms(1,2), of key types filePath] assms(3)
    assertType_has [OF assms(4,5), of filePath]
  by simp

text \<open>
  Claim C6, as amended. Take a config whose property list holds object nodes and an
  \<^verbatim>\<open>auth\<close> object node, the value of the first of them that the matcher accepts for
  \<^verbatim>\<open>auth\<close>, whose own property list holds object nodes, none of which the matcher accepts
  for \<^verbatim>\<open>strategies\<close> or for \<^verbatim>\<open>strategy\<close> (the matcher ignores member names, so
  \<^verbatim>\<open>scheme: strategy\<close> is accepted for \<^verbatim>\<open>strategy\<close>). The extraction always fails, so the block
  is never taken for absent authentication: it fails with the error of the lookup of
  \<^verbatim>\<open>mode\<close> when that lookup fails; otherwise with the engine's \<^verbatim>\<open>TypeError\<close> when the line
  of the \<^verbatim>\<open>auth\<close> node cannot be read, and else with "Missing authentication strategy" and
  that line. The lookup of \<^verbatim>\<open>mode\<close> passes when the matcher accepts no node for \<^verbatim>\<open>mode\<close> or
  the first node it accepts holds a literal.
\<close>

theorem findRouteAuthentication_no_strategy:
  assumes "get routeConfig (Name ''properties'') = Inr (Arr configProperties)"
    and "\<forall>p \<in> set configProperties. isObject p \<and> \<not> isArray p"
    and "filter (accepted_for ''auth'') configProperties = a # rest"
    and "auth = value_at a (Name ''value'')"
    and "get auth (Name ''type'') = Inr (Str ''ObjectExpression'')"
    and "get auth (Name ''properties'') = Inr (Arr ps)"
    and "\<forall>p \<in> set ps. isObject p \<and> \<not> isArray p"
    and "\<forall>p \<in> set ps. \<not> accepted_for ''strategies'' p \<and> \<not> accepted_for ''strategy'' p"
  shows "findRouteAuthentication ns routeConfig filePath =
      bindE (findProperty auth ''mode'' LITERAL_TYPES filePath) (\<lambda>mode.
      bindE (dots auth [''loc'', ''start'', ''line'']) (\<lambda>authLine.
        fail Missing_authentication_strategy filePath authLine)) \<and>
    (\<exists>e. findRouteAuthentication ns routeConfig filePath = Inl e) \<and>
    ((case filter (accepted_for ''mode'') ps of
        [] \<Rightarrow> True
      | m # others \<Rightarrow> get (value_at m (Name ''value'')) (Name ''type'') = Inr (Str ''Literal'')) \<and>
     dots auth [''loc'', ''start'', ''line''] = Inr line \<longrightarrow>
       findRouteAuthentication ns routeConfig filePath =
         fail Missing_authentication_strategy filePath line)"
proof -
  have found: "findProperty routeConfig ''auth'' OBJECT_TYPES filePath = Inr auth"
    unfolding assms(4)
    using assms(1,2,3) assms(5) [unfolded assms(4)]
    by (rule findProperty_found) (simp add: OBJECT_TYPES_def)
  have t: "truthy auth" using assms(5) by (rule get_Str_truthy)
  have "findProperty auth ''strategies'' ARRAY_TYPES filePath = Inr Undefined"
    and "findProperty auth ''strategy'' LITERAL_TYPES filePath = Inr Undefined"
    using assms(6,7,8) by (simp_all add: findProperty_not_accepted)
  note unfolded = findRouteAuthentication_fails [OF found t this, of ns]
  have always: "\<exists>e. findRouteAuthentication ns routeConfig filePath = Inl e"
    unfolding unfolded
    by (cases "findProperty auth ''mode'' LITERAL_TYPES filePath";
        cases "dots auth [''loc'', ''start'', ''line'']") (simp_all add: fail_def)
  have "findRouteAuthentication ns routeConfig filePath =
      fail Missing_authentication_strategy filePath line"
    if mode: "case filter (accepted_for ''mode'') ps of
        [] \<Rightarrow> True
      | m # others \<Rightarrow> get (value_at m (Name ''value'')) (Name ''type'') = Inr (Str ''Literal'')"
      and line: "dots auth [''loc'', ''start'', ''line''] = Inr line"
  proof -
    have "\<exists>mode. findProperty auth ''mode'' LITERAL_TYPES filePath = Inr mode"
    proof (cases "filter (accepted_for ''mode'') ps")
      case Nil
      with findProperty_accepted [OF assms(6,7), of "''mode''" LITERAL_TYPES filePath]
      show ?thesis by simp
    next
      case (Cons m others)
      with mode have "get (value_at m (Name ''value'')) (Name ''type'') = Inr (Str ''Literal'')"
        by simp
      from findProperty_found [OF assms(6,7) Cons this, of LITERAL_TYPES filePath]
      show ?thesis by (simp add: LITERAL_TYPES_def)
    qed
    with line show ?thesis unfolding unfolded by auto
  qed
  with always unfolded show ?thesis by blast
qed

theorem findRouteAuthentication_no_strategy_witness:
  "findRouteAuthentication (\<lambda>n. [])
     (ObjectExpression_node 3
       [Property_node 3 ''auth'' (ObjectExpression_node 3
          [Property_node 4 ''mode'' (Literal_node 4 ''try'')])])
     (Str ''routes/a.js'') =
   Inl (Diagnostic (Error_parsing_at_line (Str ''routes/a.js'') (Num (Finite 3))
     Missing_authentication_strategy))"
proof -
  let ?mode = "Literal_node 4 ''try''"
  let ?ps = "[Property_node 4 ''mode'' ?mode]"
  let ?auth = "ObjectExpression_node 3 ?ps"
  let ?a = "Property_node 3 ''auth'' ?auth"
  let ?config = "ObjectExpression_node 3 [?a]"
  let ?file = "Str ''routes/a.js''"
  have config: "get ?config (Name ''properties'') = Inr (Arr [?a])"
    and configObjects: "\<forall>p \<in> set [?a]. isObject p \<and> \<not> isArray p"
    and a: "filter (accepted_for ''auth'') [?a] = ?a # []"
    and auth: "?auth = value_at ?a (Name ''value'')"
    and type: "get ?auth (Name ''type'') = Inr (Str ''ObjectExpression'')"
    and props: "get ?auth (Name ''properties'') = Inr (Arr ?ps)"
    and objects: "\<forall>p \<in> set ?ps. isObject p \<and> \<not> isArray p"
    and none: "\<forall>p \<in> set ?ps. \<not> accepted_for ''strategies'' p \<and> \<not> accepted_for ''strategy'' p"
    by code_simp+
  have mode: "filter (accepted_for ''mode'') ?ps = [Property_node 4 ''mode'' ?mode]"
    and literal: "get (value_at (Property_node 4 ''mode'' ?mode) (Name ''value'')) (Name ''type'') =
      Inr (Str ''Literal'')"
    and line: "dots ?auth [''loc'', ''start'', ''line''] = Inr (Num (Finite 3))"
    by code_simp+
  show ?thesis
    using findRouteAuthentication_no_strategy [OF config configObjects a auth type props objects none,
        of "\<lambda>n. []" ?file "Num (Finite 3)", unfolded mode, THEN conjunct2, THEN conjunct2]
      literal line
    by (simp add: fail_def)
qed

text \<open>
  \<^verbatim>\<open>auth: { mode: AUTH_MODE }\<close> has neither \<^verbatim>\<open>strategies\<close> nor \<^verbatim>\<open>strategy\<close>, and the failure
  is the type assertion on \<^verbatim>\<open>mode\<close>, raised before any strategy is looked for.
\<close>

theorem findRouteAuthentication_mode_counterexample:
  "findProperty
     (ObjectExpression_node 3 [Property_node 4 ''mode'' (Identifier_node 4 ''AUTH_MODE'')])
     ''strategies'' ARRAY_TYPES (Str ''routes/a.js'') = Inr Undefined \<and>
   findProperty
     (ObjectExpression_node 3 [Property_node 4 ''mode'' (Identifier_node 4 ''AUTH_MODE'')])
     ''strategy'' LITERAL_TYPES (Str ''routes/a.js'') = Inr Undefined \<and>
   findRouteAuthentication (\<lambda>n. [])
     (ObjectExpression_node 3
       [Property_node 3 ''auth'' (ObjectExpression_node 3
          [Property_node 4 ''mode'' (Identifier_node 4 ''AUTH_MODE'')])])
     (Str ''routes/a.js'') =
   Inl (Diagnostic (Error_parsing_at_line (Str ''routes/a.js'') (Num (Finite 4))
     (Expected_type_found [''Literal''] (Str ''Identifier'') (Num (Finite 0)))))"
  by code_simp

end
